theory Spec2Isabelle
  imports Main
begin

section \<open>Go values shared by the model\<close>

text \<open>
  A Go call either returns its result or panics. A panic (a nil pointer dereference, an
  index out of range, an invalid argument to the random source) is an outcome of its own:
  it is neither a nil error nor an error value.
\<close>

datatype 'a go_result = Returned 'a | Panicked

text \<open>
  Errors of the AWS SDK, as far as the code inspects them with \<^verbatim>\<open>errors.As\<close>: the
  typed API exception found in the error chain, if any; whether the chain holds an
  \<^verbatim>\<open>awshttp.ResponseError\<close>, and if so its HTTP status (\<open>Some None\<close> when the embedded
  response pointer is nil); and the text of \<^verbatim>\<open>Error()\<close>. A cancellation reason holds
  the pointers \<^verbatim>\<open>Code\<close> and \<^verbatim>\<open>Message\<close>, either of which may be nil.
\<close>

record CancellationReason =
  Code :: "string option"
  Message :: "string option"

datatype api_exception =
    ProvisionedThroughputExceededException
  | ResourceNotFoundException string
  | ItemCollectionSizeLimitExceededException
  | RequestLimitExceeded
  | ConditionalCheckFailedException string
  | TransactionCanceledException "CancellationReason list"
  | TransactionConflictException
  | TransactionInProgressException

record sdk_error =
  api :: "api_exception option"
  http :: "nat option option"
  message :: string

datatype foreign = MarshalFailure string | Sdk sdk_error

text \<open>
  The error values of package godynamo (errors.go) and of package goaws. \<open>Errorf p e\<close>
  is \<^verbatim>\<open>fmt.Errorf("p: %w", e)\<close>, which keeps \<open>e\<close> reachable for \<^verbatim>\<open>errors.As\<close>;
  \<open>InternalError e\<close> is \<^verbatim>\<open>goaws.NewInternalError(e)\<close>, which keeps only the message
  of \<open>e\<close>; \<open>Foreign x\<close> is an error value that does not come from these packages
  (an SDK or marshalling error).
\<close>

datatype error =
    TableNotFoundError string
  | NilModelError
  | ConditionCheckFailedError string
  | RateLimitExceededError
  | ResourceNotFoundError string
  | CollectionSizeExceededError int
  | ReferenceObjectsCountError
  | ResourceInUseError string
  | MaxRetriesExceededError
  | BadTxRequestError
  | TxConditonCheckFailedError string
  | TxThrottledError
  | InvalidRequestTypeError
  | TxConflictError
  | TxInProgressError
  | TxItemsExceedsLimitError
  | InternalError error
  | Errorf string error
  | Foreign foreign

section \<open>Retries: exponential backoff\<close>

text \<open>
  The fields of \<^verbatim>\<open>Retries\<close> are \<^verbatim>\<open>int64\<close>. They are modelled as integers, and every
  arithmetic result is wrapped to 64 bits in two's complement, as Go does.
\<close>

record Retries =
  base :: int
  cap :: int
  jitter :: int
  attempt :: int
  elapsed :: int

record FailConfig =
  Base :: int
  Cap :: int
  Jitter :: int

definition wrap64 :: "int \<Rightarrow> int" where
  "wrap64 x = (x + 2 ^ 63) mod 2 ^ 64 - 2 ^ 63"

definition NewRetries :: "FailConfig \<Rightarrow> Retries" where
  "NewRetries f = \<lparr>base = Base f, cap = Cap f, jitter = Jitter f, attempt = 0, elapsed = 0\<rparr>"

definition DefaultFailConfig :: FailConfig where
  "DefaultFailConfig = \<lparr>Base = 50, Cap = 60000, Jitter = 250\<rparr>"

text \<open>
  \<^verbatim>\<open>int64(math.Pow(2.0, float64(a)))\<close>. For \<open>0 \<le> a \<le> 62\<close> the power is an exact
  float that fits \<^verbatim>\<open>int64\<close>. For negative \<open>a\<close> the power lies in \<open>[0, 1)\<close> and the
  conversion truncates it to 0. For \<open>a \<ge> 63\<close> the float is out of the range of
  \<^verbatim>\<open>int64\<close> and Go leaves the converted value to the implementation: it is the
  parameter \<open>conv\<close>.
\<close>

definition pow2_int64 :: "(int \<Rightarrow> int) \<Rightarrow> int \<Rightarrow> int" where
  "pow2_int64 conv a =
     (if a < 0 then 0 else if a \<le> 62 then 2 ^ nat a else wrap64 (conv a))"

text \<open>
  \<^verbatim>\<open>rnd.Int63n(n)\<close> panics when \<open>n \<le> 0\<close>; otherwise it returns the accepted raw
  63-bit draw \<open>u\<close> of the source reduced modulo \<open>n\<close>. The source is seeded with the
  clock, so the raw draw is an input of the model.
\<close>

definition Int63n :: "int \<Rightarrow> nat \<Rightarrow> int go_result" where
  "Int63n n u = (if n \<le> 0 then Panicked else Returned (int u mod n))"

text \<open>
  One call of \<^verbatim>\<open>ExponentialBackoff\<close>: what it returns (\<open>None\<close> is the nil error),
  the arguments of its calls of \<^verbatim>\<open>time.Sleep\<close> in nanoseconds
  (\<^verbatim>\<open>time.Duration\<close> counts nanoseconds, \<^verbatim>\<open>time.Millisecond\<close> is 1000000), and the
  receiver after the call.
\<close>

record backoff_call =
  result :: "error option go_result"
  sleeps :: "int list"
  after :: Retries

definition ExponentialBackoff :: "(int \<Rightarrow> int) \<Rightarrow> nat \<Rightarrow> Retries \<Rightarrow> backoff_call" where
  "ExponentialBackoff conv u r =
     (if elapsed r \<ge> cap r
      then \<lparr>result = Returned (Some MaxRetriesExceededError), sleeps = [], after = r\<rparr>
      else
        let r1 = r\<lparr>attempt := wrap64 (attempt r + 1)\<rparr> in
        case Int63n (jitter r1) u of
          Panicked \<Rightarrow> \<lparr>result = Panicked, sleeps = [], after = r1\<rparr>
        | Returned jit \<Rightarrow>
            let sleep = wrap64 (base r1 * pow2_int64 conv (attempt r1));
                wait = wrap64 (sleep + jit)
            in if wrap64 (elapsed r1 + wait) > cap r1
               then \<lparr>result = Returned None,
                     sleeps = [wrap64 (wait - wrap64 (wrap64 (wait + elapsed r1) - cap r1))],
                     after = r1\<lparr>elapsed := cap r1\<rparr>\<rparr>
               else \<lparr>result = Returned None,
                     sleeps = [wrap64 (wrap64 wait * 1000000)],
                     after = r1\<lparr>elapsed := wrap64 (elapsed r1 + wait)\<rparr>\<rparr>)"

text \<open>A sequence of backoff calls on one receiver, one raw draw per call: the states seen.\<close>

fun backoff_states :: "(int \<Rightarrow> int) \<Rightarrow> nat list \<Rightarrow> Retries \<Rightarrow> Retries list" where
  "backoff_states conv [] r = [r]"
| "backoff_states conv (u # us) r =
     r # backoff_states conv us (after (ExponentialBackoff conv u r))"

text \<open>
  The conversion of an out-of-range float on amd64: the instruction yields the
  "integer indefinite" value, the least \<^verbatim>\<open>int64\<close>.
\<close>

definition conv_amd64 :: "int \<Rightarrow> int" where
  "conv_amd64 a = - (2 ^ 63)"

text \<open>
  The wait in milliseconds that a call computes when nothing overflows: the exponent is
  the attempt count after its increment.
\<close>

definition backoff_wait :: "Retries \<Rightarrow> nat \<Rightarrow> int" where
  "backoff_wait r u = base r * 2 ^ (nat (attempt r) + 1) + int u mod jitter r"

text \<open>
  The invariant of a receiver under repeated calls: the policy is in range, \<open>elapsed\<close>
  lies between 0 and \<open>cap\<close>, and while the cap is not reached \<open>elapsed\<close> is at least
  the sum of the exponential terms slept so far, which bounds the next term.
\<close>

definition backoff_inv :: "Retries \<Rightarrow> bool" where
  "backoff_inv r \<longleftrightarrow>
     0 \<le> base r \<and> 0 < jitter r \<and> 0 \<le> elapsed r \<and> elapsed r \<le> cap r \<and>
     2 * cap r + 2 * base r + jitter r < 2 ^ 63 \<and>
     (0 < base r \<and> elapsed r < cap r \<longrightarrow>
        0 \<le> attempt r \<and> base r * (2 ^ (nat (attempt r) + 1) - 2) \<le> elapsed r)"

section \<open>Tables, queries and keys\<close>

record Table =
  TableName :: string
  PrimaryKeyName :: string
  PrimaryKeyType :: string
  SortKeyName :: string
  SortKeyType :: string

record 'v Query =
  PrimaryValue :: 'v
  SortValue :: 'v
  UpdateFieldName :: string
  UpdateExprKey :: string
  UpdateValue :: 'v

text \<open>
  \<^verbatim>\<open>keyMaker\<close> builds the key of an item from a query and a table. The conversion of a
  Go value into an attribute value (\<^verbatim>\<open>createAV\<close>) does not bear on the properties
  below and is a parameter.
\<close>

definition keyMaker :: "('v \<Rightarrow> 'av) \<Rightarrow> 'v Query \<Rightarrow> Table \<Rightarrow> (string \<rightharpoonup> 'av)" where
  "keyMaker createAV q t =
     (let keys = [PrimaryKeyName t \<mapsto> createAV (PrimaryValue q)]
      in if SortKeyName t = [] then keys
         else keys(SortKeyName t \<mapsto> createAV (SortValue q)))"

section \<open>Transactions\<close>

text \<open>
  A transaction member. \<open>Table\<close> and \<open>Query\<close> are pointers and may be nil
  (\<open>None\<close>); \<open>request\<close> is the kind tag, one of C, R, U, D and CC.
\<close>

record ('a, 'v, 'e) TransactionItem =
  Name :: string
  request :: string
  Item :: 'a
  Table :: "Table option"
  Query :: "'v Query option"
  Expr :: 'e

definition GetRequest :: "('a, 'v, 'e) TransactionItem \<Rightarrow> string" where
  "GetRequest t = request t"

definition NewCreateTxItem ::
  "string \<Rightarrow> 'a \<Rightarrow> Table option \<Rightarrow> 'v Query option \<Rightarrow> 'e \<Rightarrow> ('a, 'v, 'e) TransactionItem" where
  "NewCreateTxItem name item t q e =
     \<lparr>Name = name, request = ''C'', Item = item, Table = t, Query = q, Expr = e\<rparr>"

text \<open>
  The other constructors leave \<^verbatim>\<open>Item\<close> at the zero value of its type (a nil interface),
  which is the parameter \<open>nil\<close>.
\<close>

definition NewUpdateTxItem ::
  "'a \<Rightarrow> string \<Rightarrow> Table option \<Rightarrow> 'v Query option \<Rightarrow> 'e \<Rightarrow> ('a, 'v, 'e) TransactionItem" where
  "NewUpdateTxItem nil name t q e =
     \<lparr>Name = name, request = ''U'', Item = nil, Table = t, Query = q, Expr = e\<rparr>"

definition NewReadTxItem ::
  "'a \<Rightarrow> string \<Rightarrow> Table option \<Rightarrow> 'v Query option \<Rightarrow> 'e \<Rightarrow> ('a, 'v, 'e) TransactionItem" where
  "NewReadTxItem nil name t q e =
     \<lparr>Name = name, request = ''R'', Item = nil, Table = t, Query = q, Expr = e\<rparr>"

definition NewDeleteTxItem ::
  "'a \<Rightarrow> string \<Rightarrow> Table option \<Rightarrow> 'v Query option \<Rightarrow> 'e \<Rightarrow> ('a, 'v, 'e) TransactionItem" where
  "NewDeleteTxItem nil name t q e =
     \<lparr>Name = name, request = ''D'', Item = nil, Table = t, Query = q, Expr = e\<rparr>"

definition NewConditionCheckTxItem ::
  "'a \<Rightarrow> string \<Rightarrow> Table option \<Rightarrow> 'v Query option \<Rightarrow> 'e \<Rightarrow> ('a, 'v, 'e) TransactionItem" where
  "NewConditionCheckTxItem nil name t q e =
     \<lparr>Name = name, request = ''CC'', Item = nil, Table = t, Query = q, Expr = e\<rparr>"

text \<open>
  The entries of a transaction request. Each carries the expression of its member (whose
  condition, names, values and update parts the SDK reads), the table name and, except
  for a put, the key.
\<close>

datatype ('av, 'e) TransactWriteItem =
    Put 'av 'e string
  | Update 'e string "string \<rightharpoonup> 'av"
  | Delete 'e string "string \<rightharpoonup> 'av"
  | ConditionCheck 'e string "string \<rightharpoonup> 'av"

record ('av, 'e) TransactWriteItemsInput =
  ClientRequestToken :: "string option"
  TransactItems :: "('av, 'e) TransactWriteItem list"

text \<open>
  \<^verbatim>\<open>marshalMap\<close> wraps the failure of the SDK's \<^verbatim>\<open>attributevalue.MarshalMap\<close>, which is
  the parameter \<open>MarshalMap\<close> (\<open>Inl\<close> is its error).
\<close>

definition marshalMap :: "('a \<Rightarrow> string + 'av) \<Rightarrow> 'a \<Rightarrow> error + 'av" where
  "marshalMap MarshalMap input =
     (case MarshalMap input of
        Inl e \<Rightarrow> Inl (InternalError (Errorf ''attributevalue.MarshalMap'' (Foreign (MarshalFailure e))))
      | Inr m \<Rightarrow> Inr m)"

text \<open>
  \<^verbatim>\<open>newTxWriteItem\<close>: the dispatch on the kind tag. Reading \<^verbatim>\<open>ti.Table.TableName\<close>
  with a nil table, or building the key with a nil query or table, panics.
\<close>

definition newTxWriteItem ::
  "('v \<Rightarrow> 'av) \<Rightarrow> ('a \<Rightarrow> string + 'av) \<Rightarrow> ('a, 'v, 'e) TransactionItem
     \<Rightarrow> (error + ('av, 'e) TransactWriteItem) go_result" where
  "newTxWriteItem createAV MarshalMap ti =
     (let req = GetRequest ti in
      if req = ''C'' then
        (case marshalMap MarshalMap (Item ti) of
           Inl err \<Rightarrow> Returned (Inl (InternalError (Errorf ''marshalMap'' err)))
         | Inr m \<Rightarrow>
             (case Table ti of
                None \<Rightarrow> Panicked
              | Some t \<Rightarrow> Returned (Inr (Put m (Expr ti) (TableName t)))))
      else if req = ''U'' then
        (case Table ti of
           None \<Rightarrow> Panicked
         | Some t \<Rightarrow>
             (case Query ti of
                None \<Rightarrow> Panicked
              | Some q \<Rightarrow> Returned (Inr (Update (Expr ti) (TableName t) (keyMaker createAV q t)))))
      else if req = ''D'' then
        (case Table ti of
           None \<Rightarrow> Panicked
         | Some t \<Rightarrow>
             (case Query ti of
                None \<Rightarrow> Panicked
              | Some q \<Rightarrow> Returned (Inr (Delete (Expr ti) (TableName t) (keyMaker createAV q t)))))
      else if req = ''CC'' then
        (case Table ti of
           None \<Rightarrow> Panicked
         | Some t \<Rightarrow>
             (case Query ti of
                None \<Rightarrow> Panicked
              | Some q \<Rightarrow>
                  Returned (Inr (ConditionCheck (Expr ti) (TableName t) (keyMaker createAV q t)))))
      else Returned (Inl InvalidRequestTypeError))"

text \<open>
  The first loop of \<^verbatim>\<open>TxWrite\<close>: the entries are built in order, and the first member
  that fails ends the call.
\<close>

fun txWriteItems ::
  "('v \<Rightarrow> 'av) \<Rightarrow> ('a \<Rightarrow> string + 'av) \<Rightarrow> ('a, 'v, 'e) TransactionItem list
     \<Rightarrow> (error + ('av, 'e) TransactWriteItem list) go_result" where
  "txWriteItems createAV MarshalMap [] = Returned (Inr [])"
| "txWriteItems createAV MarshalMap (ti # rest) =
     (case newTxWriteItem createAV MarshalMap ti of
        Panicked \<Rightarrow> Panicked
      | Returned (Inl err) \<Rightarrow> Returned (Inl (Errorf ''newTxWriteItem'' err))
      | Returned (Inr txItem) \<Rightarrow>
          (case txWriteItems createAV MarshalMap rest of
             Panicked \<Rightarrow> Panicked
           | Returned (Inl err) \<Rightarrow> Returned (Inl err)
           | Returned (Inr txItems) \<Rightarrow> Returned (Inr (txItem # txItems))))"

text \<open>
  The loop over the cancellation reasons, with its local variables. \<^verbatim>\<open>*r.Code\<close> panics
  on a nil code, and \<^verbatim>\<open>items[i]\<close> panics when \<open>i\<close> is not an index of \<open>items\<close>.
\<close>

record ('a, 'v, 'e) reasons_scan =
  check :: bool
  throttled :: bool
  msg :: string
  failed :: "('a, 'v, 'e) TransactionItem list"

fun scan_reasons ::
  "('a, 'v, 'e) TransactionItem list \<Rightarrow> nat \<Rightarrow> CancellationReason list
     \<Rightarrow> ('a, 'v, 'e) reasons_scan \<Rightarrow> ('a, 'v, 'e) reasons_scan go_result" where
  "scan_reasons items i [] s = Returned s"
| "scan_reasons items i (r # rs) s =
     (case Code r of
        None \<Rightarrow> Panicked
      | Some c \<Rightarrow>
          (case (if c = ''ConditionalCheckFailed''
                 then (if i < length items
                       then Returned (s\<lparr>check := True,
                                       msg := (case Message r of None \<Rightarrow> msg s | Some m \<Rightarrow> m),
                                       failed := failed s @ [items ! i]\<rparr>)
                       else Panicked)
                 else Returned s) of
             Panicked \<Rightarrow> Panicked
           | Returned s1 \<Rightarrow>
               (case (if c = ''ThrottlingError''
                      then (if i < length items
                            then Returned (s1\<lparr>throttled := True,
                                             msg := (case Message r of
                                                       None \<Rightarrow> ''transaction request throttled''
                                                     | Some m \<Rightarrow> m),
                                             failed := failed s1 @ [items ! i]\<rparr>)
                            else Panicked)
                      else Returned s1) of
                  Panicked \<Rightarrow> Panicked
                | Returned s2 \<Rightarrow> scan_reasons items (Suc i) rs s2)))"

text \<open>
  \<^verbatim>\<open>TxWrite\<close>. The backend is the function \<open>svc\<close> from the request to the error of
  \<^verbatim>\<open>TransactWriteItems\<close> (\<open>None\<close> on success). The model returns what the call returns
  (the failed members and the error, \<open>None\<close> being nil) together with the requests it
  submitted. A nil slice and an empty slice are both the empty list.
\<close>

record ('a, 'v, 'e, 'av) tx_call =
  tx_result :: "(('a, 'v, 'e) TransactionItem list \<times> error option) go_result"
  tx_requests :: "('av, 'e) TransactWriteItemsInput list"

definition TxWrite ::
  "('v \<Rightarrow> 'av) \<Rightarrow> ('a \<Rightarrow> string + 'av) \<Rightarrow> (('av, 'e) TransactWriteItemsInput \<Rightarrow> sdk_error option)
     \<Rightarrow> ('a, 'v, 'e) TransactionItem list \<Rightarrow> string \<Rightarrow> ('a, 'v, 'e, 'av) tx_call" where
  "TxWrite createAV MarshalMap svc items requestToken =
     (if length items > 25
      then \<lparr>tx_result = Returned ([], Some TxItemsExceedsLimitError), tx_requests = []\<rparr>
      else
        case txWriteItems createAV MarshalMap items of
          Panicked \<Rightarrow> \<lparr>tx_result = Panicked, tx_requests = []\<rparr>
        | Returned (Inl err) \<Rightarrow> \<lparr>tx_result = Returned ([], Some err), tx_requests = []\<rparr>
        | Returned (Inr txItems) \<Rightarrow>
            let txInput = \<lparr>ClientRequestToken = (if requestToken \<noteq> [] then Some requestToken else None),
                           TransactItems = txItems\<rparr>
            in \<lparr>tx_result =
                  (case svc txInput of
                     None \<Rightarrow> Returned ([], None)
                   | Some err \<Rightarrow>
                       (case api err of
                          Some (TransactionCanceledException reasons) \<Rightarrow>
                            (case scan_reasons items 0 reasons
                                    \<lparr>check = False, throttled = False, msg = [], failed = []\<rparr> of
                               Panicked \<Rightarrow> Panicked
                             | Returned s \<Rightarrow>
                                 if check s
                                 then Returned (failed s, Some (TxConditonCheckFailedError (msg s)))
                                 else if throttled s
                                 then Returned (failed s, Some TxThrottledError)
                                 else Returned (failed s,
                                        Some (InternalError
                                                (Errorf ''d.svc.TransactWriteItems'' (Foreign (Sdk err))))))
                        | Some TransactionConflictException \<Rightarrow> Returned ([], Some TxConflictError)
                        | Some TransactionInProgressException \<Rightarrow> Returned ([], Some TxInProgressError)
                        | _ \<Rightarrow>
                            (case http err of
                               None \<Rightarrow>
                                 Returned ([], Some (InternalError
                                                      (Errorf ''s.svc.DeleteMessage'' (Foreign (Sdk err)))))
                             | Some None \<Rightarrow>
                                 Returned ([], Some (InternalError
                                                      (Errorf ''s.svc.DeleteMessage'' (Foreign (Sdk err)))))
                             | Some (Some status) \<Rightarrow>
                                 if status = 400 then Returned ([], Some BadTxRequestError)
                                 else if status = 404
                                 then Returned ([], Some (ResourceNotFoundError (message err)))
                                 else Returned ([], Some (InternalError
                                                           (Errorf ''s.svc.DeleteMessage''
                                                              (Foreign (Sdk err)))))))),
                tx_requests = [txInput]\<rparr>)"

text \<open>
  The fixtures of the package's unit tests: the table of \<^verbatim>\<open>TestTransactions_TxWrite\<close>,
  create members as it builds them (the payload, the attribute values and the
  expressions are immaterial here and are the unit value), and the SDK's marshalling
  and attribute conversion succeeding on them.
\<close>

definition testTable :: Table where
  "testTable = \<lparr>TableName = ''test-table'', PrimaryKeyName = ''id'', PrimaryKeyType = ''S'',
                 SortKeyName = [], SortKeyType = []\<rparr>"

definition createMember :: "string \<Rightarrow> (unit, unit, unit) TransactionItem" where
  "createMember name = NewCreateTxItem name () (Some testTable) None ()"

definition readMember :: "string \<Rightarrow> (unit, unit, unit) TransactionItem" where
  "readMember name = NewReadTxItem () name (Some testTable) None ()"

definition marshalOk :: "unit \<Rightarrow> string + unit" where
  "marshalOk item = Inr ()"

definition canceled :: "CancellationReason list \<Rightarrow> (unit, unit) TransactWriteItemsInput \<Rightarrow> sdk_error option" where
  "canceled reasons input =
     Some \<lparr>api = Some (TransactionCanceledException reasons), http = None, message = []\<rparr>"

definition accepts :: "(unit, unit) TransactWriteItemsInput \<Rightarrow> sdk_error option" where
  "accepts input = None"

section \<open>Batch operations\<close>

subsection \<open>Classification of errors\<close>

text \<open>
  \<^verbatim>\<open>errors.As\<close> walks the chain of wrapped errors. \<open>as_api\<close> finds the typed API
  exception of the SDK, \<open>as_throttled\<close> a \<^verbatim>\<open>*RateLimitExceededError\<close>, and \<open>as_aws\<close>
  the first value that implements \<^verbatim>\<open>goaws.AwsError\<close> (every error of godynamo and of
  goaws does; a wrapper made by \<^verbatim>\<open>fmt.Errorf\<close> and a foreign error do not).
\<close>

fun as_api :: "error \<Rightarrow> api_exception option" where
  "as_api (Errorf p e) = as_api e"
| "as_api (Foreign (Sdk e)) = api e"
| "as_api e = None"

fun as_throttled :: "error \<Rightarrow> bool" where
  "as_throttled RateLimitExceededError = True"
| "as_throttled (Errorf p e) = as_throttled e"
| "as_throttled e = False"

fun as_aws :: "error \<Rightarrow> error option" where
  "as_aws (Errorf p e) = as_aws e"
| "as_aws (Foreign x) = None"
| "as_aws e = Some e"

fun Retryable :: "error \<Rightarrow> bool" where
  "Retryable RateLimitExceededError = True"
| "Retryable (ResourceInUseError m) = True"
| "Retryable TxThrottledError = True"
| "Retryable TxConflictError = True"
| "Retryable e = False"

definition handleErr :: "error \<Rightarrow> error" where
  "handleErr err =
     (case as_api err of
        Some ProvisionedThroughputExceededException \<Rightarrow> RateLimitExceededError
      | Some (ResourceNotFoundException m) \<Rightarrow> ResourceNotFoundError m
      | Some ItemCollectionSizeLimitExceededException \<Rightarrow> CollectionSizeExceededError 0
      | Some RequestLimitExceeded \<Rightarrow> RateLimitExceededError
      | Some (ConditionalCheckFailedException m) \<Rightarrow> ConditionCheckFailedError m
      | _ \<Rightarrow> InternalError err)"

subsection \<open>Requests, responses and the environment\<close>

text \<open>
  A Go map from table names is given as the list of its entries, so that \<^verbatim>\<open>len\<close> of
  the map is the length of the list.
\<close>

datatype 'av WriteRequest = PutRequest 'av | DeleteRequest "string \<rightharpoonup> 'av"

record 'av BatchWriteItemInput =
  RequestItems :: "(string \<times> 'av WriteRequest list) list"

record 'av BatchWriteItemOutput =
  UnprocessedItems :: "(string \<times> 'av WriteRequest list) list"

record 'av KeysAndAttributes =
  Keys :: "(string \<rightharpoonup> 'av) list"

record 'av BatchGetItemInput =
  GetRequestItems :: "(string \<times> 'av KeysAndAttributes) list"

record 'av BatchGetItemOutput =
  Responses :: "(string \<times> 'av list) list"
  UnprocessedKeys :: "(string \<times> 'av KeysAndAttributes) list"

text \<open>
  One step of the environment of a batch loop: the reply of the backend to the request
  of this iteration (\<open>Inl\<close> is the SDK's error) and the raw value that the random
  source yields if the loop backs off in this iteration.
\<close>

record 'out env_step =
  reply :: "sdk_error + 'out"
  draw :: nat

text \<open>
  A run of a batch operation against a finite sequence of steps: whether the operation
  has finished (returned or panicked) or has issued a request that none of the given
  steps answers (\<open>Pending\<close>), the requests issued, and the sleeps in nanoseconds.
\<close>

datatype 'a progress = Finished "'a go_result" | Pending

record ('o, 'i) batch_run =
  outcome :: "'o progress"
  requests :: "'i list"
  slept :: "int list"

definition batchWriteUtil ::
  "sdk_error + 'av BatchWriteItemOutput \<Rightarrow> 'av BatchWriteItemOutput option \<times> error option" where
  "batchWriteUtil rep =
     (case rep of
        Inl err \<Rightarrow> (None, Some (handleErr (Errorf ''q.svc.BatchWriteItem'' (Foreign (Sdk err)))))
      | Inr res \<Rightarrow> (Some res, None))"

definition batchGetUtil ::
  "sdk_error + 'av BatchGetItemOutput \<Rightarrow> 'av BatchGetItemOutput option \<times> error option" where
  "batchGetUtil rep =
     (case rep of
        Inl err \<Rightarrow> (None, Some (handleErr (Errorf ''q.svc.BatchGetItem'' (Foreign (Sdk err)))))
      | Inr res \<Rightarrow> (Some res, None))"

subsection \<open>The retry loops\<close>

text \<open>
  What the error switch of an iteration decides: the operation stops with a result, or
  the iteration goes on with a request, a retry state and the sleeps made.
  \<open>retryArm\<close> is the body of the two retryable arms: it reads the unprocessed set of
  \<^verbatim>\<open>result\<close>, which panics when \<^verbatim>\<open>result\<close> is nil, and then backs off.
\<close>

datatype ('o, 'i) arm = Stop "'o go_result" | Continue 'i Retries "int list"

definition retryArm ::
  "(int \<Rightarrow> int) \<Rightarrow> nat \<Rightarrow> Retries \<Rightarrow> ('r \<Rightarrow> 'i) \<Rightarrow> (error \<Rightarrow> 'o) \<Rightarrow> 'r option \<Rightarrow> ('o, 'i) arm" where
  "retryArm conv u retries unprocessed fail res =
     (case res of
        None \<Rightarrow> Stop Panicked
      | Some r \<Rightarrow>
          let b = ExponentialBackoff conv u retries in
          (case result b of
             Panicked \<Rightarrow> Stop Panicked
           | Returned (Some err) \<Rightarrow> Stop (Returned (fail (Errorf ''retries.ExponentialBackoff'' err)))
           | Returned None \<Rightarrow> Continue (unprocessed r) (after b) (sleeps b)))"

definition errorSwitch ::
  "(int \<Rightarrow> int) \<Rightarrow> nat \<Rightarrow> Retries \<Rightarrow> ('r \<Rightarrow> 'i) \<Rightarrow> (error \<Rightarrow> 'o) \<Rightarrow> string \<Rightarrow> 'i
     \<Rightarrow> 'r option \<Rightarrow> error option \<Rightarrow> ('o, 'i) arm" where
  "errorSwitch conv u retries unprocessed fail util input res err =
     (case err of
        None \<Rightarrow> Continue input retries []
      | Some e \<Rightarrow>
          if as_throttled e then retryArm conv u retries unprocessed fail res
          else (case as_aws e of
                  Some awsErr \<Rightarrow>
                    if Retryable awsErr then retryArm conv u retries unprocessed fail res
                    else Stop (Returned (fail (Errorf util e)))
                | None \<Rightarrow> Stop (Returned (fail (InternalError (Errorf util e))))))"

text \<open>
  The loop of \<^verbatim>\<open>BatchWriteCreate\<close> and of \<^verbatim>\<open>BatchWriteDelete\<close> (the two functions hold
  the same loop). After the switch the loop reads \<^verbatim>\<open>result.UnprocessedItems\<close> again and
  ends when it is empty; otherwise the next iteration issues \<open>input\<close>, which only a
  retryable arm has replaced.
\<close>

fun batchWriteLoop ::
  "(int \<Rightarrow> int) \<Rightarrow> Retries \<Rightarrow> 'av BatchWriteItemInput \<Rightarrow> 'av BatchWriteItemOutput env_step list
     \<Rightarrow> (error option, 'av BatchWriteItemInput) batch_run" where
  "batchWriteLoop conv retries input [] =
     \<lparr>outcome = Pending, requests = [input], slept = []\<rparr>"
| "batchWriteLoop conv retries input (st # rest) =
     (case batchWriteUtil (reply st) of (res, err) \<Rightarrow>
        (case errorSwitch conv (draw st) retries
                (\<lambda>r. \<lparr>RequestItems = UnprocessedItems r\<rparr>) Some ''q.batchWriteUtil'' input res err of
           Stop out \<Rightarrow> \<lparr>outcome = Finished out, requests = [input], slept = []\<rparr>
         | Continue input' retries' zs \<Rightarrow>
             (case res of
                None \<Rightarrow> \<lparr>outcome = Finished Panicked, requests = [input], slept = zs\<rparr>
              | Some r \<Rightarrow>
                  if length (UnprocessedItems r) = 0
                  then \<lparr>outcome = Finished (Returned None), requests = [input], slept = zs\<rparr>
                  else (let run = batchWriteLoop conv retries' input' rest
                        in run\<lparr>requests := input # requests run, slept := zs @ slept run\<rparr>))))"

text \<open>
  The inner loop of \<^verbatim>\<open>BatchGet\<close> over the items of one response: item \<open>i\<close> is
  unmarshalled into a copy of \<^verbatim>\<open>refObjs[i]\<close> (a panic when \<open>i\<close> is not an index) and
  appended to the results. \<open>UnmarshalMap\<close> is the SDK's function (\<open>Inl\<close> is its error;
  the code joins its wrapping prefix with a comma instead of a colon).
\<close>

fun unmarshalResponses ::
  "('av \<Rightarrow> 'r \<Rightarrow> string + 'r) \<Rightarrow> 'r list \<Rightarrow> nat \<Rightarrow> 'av list \<Rightarrow> 'r list \<Rightarrow> (error + 'r list) go_result" where
  "unmarshalResponses UnmarshalMap refObjs i [] items = Returned (Inr items)"
| "unmarshalResponses UnmarshalMap refObjs i (r # rs) items =
     (if i < length refObjs
      then (case UnmarshalMap r (refObjs ! i) of
              Inl e \<Rightarrow> Returned (Inl (InternalError
                                       (Errorf ''attributevalue.UnmarshalMap'' (Foreign (MarshalFailure e)))))
            | Inr ref \<Rightarrow> unmarshalResponses UnmarshalMap refObjs (Suc i) rs (items @ [ref]))
      else Panicked)"

definition tableResponses :: "(string \<times> 'av list) list \<Rightarrow> string \<Rightarrow> 'av list" where
  "tableResponses responses name = (case map_of responses name of None \<Rightarrow> [] | Some rs \<Rightarrow> rs)"

fun batchGetLoop ::
  "(int \<Rightarrow> int) \<Rightarrow> ('av \<Rightarrow> 'r \<Rightarrow> string + 'r) \<Rightarrow> string \<Rightarrow> 'r list \<Rightarrow> 'r list \<Rightarrow> Retries
     \<Rightarrow> 'av BatchGetItemInput \<Rightarrow> 'av BatchGetItemOutput env_step list
     \<Rightarrow> ('r list \<times> error option, 'av BatchGetItemInput) batch_run" where
  "batchGetLoop conv UnmarshalMap name refObjs items retries input [] =
     \<lparr>outcome = Pending, requests = [input], slept = []\<rparr>"
| "batchGetLoop conv UnmarshalMap name refObjs items retries input (st # rest) =
     (case batchGetUtil (reply st) of (res, err) \<Rightarrow>
        (case errorSwitch conv (draw st) retries
                (\<lambda>r. \<lparr>GetRequestItems = UnprocessedKeys r\<rparr>) (\<lambda>e. ([], Some e)) ''q.batchGetUtil''
                input res err of
           Stop out \<Rightarrow> \<lparr>outcome = Finished out, requests = [input], slept = []\<rparr>
         | Continue input' retries' zs \<Rightarrow>
             (case res of
                None \<Rightarrow> \<lparr>outcome = Finished Panicked, requests = [input], slept = zs\<rparr>
              | Some r \<Rightarrow>
                  (case unmarshalResponses UnmarshalMap refObjs 0 (tableResponses (Responses r) name) items of
                     Panicked \<Rightarrow> \<lparr>outcome = Finished Panicked, requests = [input], slept = zs\<rparr>
                   | Returned (Inl e) \<Rightarrow>
                       \<lparr>outcome = Finished (Returned ([], Some e)), requests = [input], slept = zs\<rparr>
                   | Returned (Inr items') \<Rightarrow>
                       if length (UnprocessedKeys r) = 0
                       then \<lparr>outcome = Finished (Returned (items', None)), requests = [input], slept = zs\<rparr>
                       else (let run = batchGetLoop conv UnmarshalMap name refObjs items' retries' input' rest
                             in run\<lparr>requests := input # requests run, slept := zs @ slept run\<rparr>)))))"

subsection \<open>The operations\<close>

text \<open>
  The items of a batch are Go interface values or pointers and may be nil (\<open>None\<close>);
  nil entries are skipped. A nil slice and an empty slice are both the empty list: the
  code reads only their length and their elements. The table registry maps a name to a
  pointer, which may itself be nil (\<open>Some None\<close>).
\<close>

fun putRequests :: "('a \<Rightarrow> string + 'av) \<Rightarrow> 'a option list \<Rightarrow> error + 'av WriteRequest list" where
  "putRequests MarshalMap [] = Inr []"
| "putRequests MarshalMap (None # rest) = putRequests MarshalMap rest"
| "putRequests MarshalMap (Some item # rest) =
     (case MarshalMap item of
        Inl e \<Rightarrow> Inl (InternalError (Errorf ''attributevalue.MarshalMap'' (Foreign (MarshalFailure e))))
      | Inr av \<Rightarrow>
          (case putRequests MarshalMap rest of
             Inl err \<Rightarrow> Inl err
           | Inr wrs \<Rightarrow> Inr (PutRequest av # wrs)))"

definition finished :: "'o \<Rightarrow> ('o, 'i) batch_run" where
  "finished out = \<lparr>outcome = Finished (Returned out), requests = [], slept = []\<rparr>"

definition BatchWriteCreate ::
  "(int \<Rightarrow> int) \<Rightarrow> ('a \<Rightarrow> string + 'av) \<Rightarrow> (string \<rightharpoonup> Table option) \<Rightarrow> FailConfig \<Rightarrow> string
     \<Rightarrow> 'a option list \<Rightarrow> 'av BatchWriteItemOutput env_step list
     \<Rightarrow> (error option, 'av BatchWriteItemInput) batch_run" where
  "BatchWriteCreate conv MarshalMap tables fc tableName items steps =
     (if length items > 25
      then finished (Some (CollectionSizeExceededError (int (length items))))
      else
        case tables tableName of
          None \<Rightarrow> finished (Some (TableNotFoundError tableName))
        | Some t \<Rightarrow>
            (case putRequests MarshalMap items of
               Inl err \<Rightarrow> finished (Some err)
             | Inr wrs \<Rightarrow>
                 (case t of
                    None \<Rightarrow> \<lparr>outcome = Finished Panicked, requests = [], slept = []\<rparr>
                  | Some tab \<Rightarrow>
                      batchWriteLoop conv (NewRetries fc)
                        \<lparr>RequestItems = [(TableName tab, wrs)]\<rparr> steps)))"

definition deleteRequests :: "('v \<Rightarrow> 'av) \<Rightarrow> Table \<Rightarrow> 'v Query option list \<Rightarrow> 'av WriteRequest list" where
  "deleteRequests createAV t queries =
     map (\<lambda>q. DeleteRequest (keyMaker createAV q t)) (List.map_filter (\<lambda>q. q) queries)"

definition BatchWriteDelete ::
  "(int \<Rightarrow> int) \<Rightarrow> ('v \<Rightarrow> 'av) \<Rightarrow> (string \<rightharpoonup> Table option) \<Rightarrow> FailConfig \<Rightarrow> string
     \<Rightarrow> 'v Query option list \<Rightarrow> 'av BatchWriteItemOutput env_step list
     \<Rightarrow> (error option, 'av BatchWriteItemInput) batch_run" where
  "BatchWriteDelete conv createAV tables fc tableName queries steps =
     (if length queries > 25
      then finished (Some (CollectionSizeExceededError (int (length queries))))
      else
        case tables tableName of
          None \<Rightarrow> finished (Some (TableNotFoundError tableName))
        | Some None \<Rightarrow> finished (Some (TableNotFoundError tableName))
        | Some (Some t) \<Rightarrow>
            batchWriteLoop conv (NewRetries fc)
              \<lparr>RequestItems = [(TableName t, deleteRequests createAV t queries)]\<rparr> steps)"

definition BatchGet ::
  "(int \<Rightarrow> int) \<Rightarrow> ('v \<Rightarrow> 'av) \<Rightarrow> ('av \<Rightarrow> 'r \<Rightarrow> string + 'r) \<Rightarrow> (string \<rightharpoonup> Table option)
     \<Rightarrow> FailConfig \<Rightarrow> string \<Rightarrow> 'v Query option list \<Rightarrow> 'r list
     \<Rightarrow> 'av BatchGetItemOutput env_step list
     \<Rightarrow> ('r list \<times> error option, 'av BatchGetItemInput) batch_run" where
  "BatchGet conv createAV UnmarshalMap tables fc tableName queries refObjs steps =
     (if length queries > 100
      then finished ([], Some (CollectionSizeExceededError (int (length queries))))
      else if length queries \<noteq> length refObjs
      then finished ([], Some ReferenceObjectsCountError)
      else
        case tables tableName of
          None \<Rightarrow> finished ([], Some (TableNotFoundError tableName))
        | Some None \<Rightarrow> finished ([], Some (TableNotFoundError tableName))
        | Some (Some t) \<Rightarrow>
            batchGetLoop conv UnmarshalMap (TableName t) refObjs [] (NewRetries fc)
              \<lparr>GetRequestItems =
                 [(TableName t,
                   \<lparr>Keys = map (\<lambda>q. keyMaker createAV q t) (List.map_filter (\<lambda>q. q) queries)\<rparr>)]\<rparr>
              steps)"

text \<open>
  Fixtures for the batch operations: the table registry of \<^verbatim>\<open>TestQueries_BatchWriteCreate\<close>,
  the request for one item, a backend reply that leaves this item unprocessed, a reply
  that completes the batch, and replies that fail with a given API exception.
\<close>

definition testTables :: "string \<rightharpoonup> Table option" where
  "testTables = [''test-table'' \<mapsto> Some testTable]"

definition oneItemInput :: "unit BatchWriteItemInput" where
  "oneItemInput = \<lparr>RequestItems = [(''test-table'', [PutRequest ()])]\<rparr>"

definition busy :: "unit BatchWriteItemOutput env_step" where
  "busy = \<lparr>reply = Inr \<lparr>UnprocessedItems = [(''test-table'', [PutRequest ()])]\<rparr>, draw = 0\<rparr>"

definition complete :: "unit BatchWriteItemOutput env_step" where
  "complete = \<lparr>reply = Inr \<lparr>UnprocessedItems = []\<rparr>, draw = 0\<rparr>"

definition completeGet :: "unit BatchGetItemOutput env_step" where
  "completeGet = \<lparr>reply = Inr \<lparr>Responses = [], UnprocessedKeys = []\<rparr>, draw = 0\<rparr>"

definition failing :: "api_exception \<Rightarrow> 'out env_step" where
  "failing e = \<lparr>reply = Inl \<lparr>api = Some e, http = Some (Some 400), message = []\<rparr>, draw = 0\<rparr>"

definition unmarshalOk :: "unit \<Rightarrow> unit \<Rightarrow> string + unit" where
  "unmarshalOk av ref = Inr ()"

section \<open>Properties of the backoff\<close>

lemma wrap64_id: "- (2 ^ 63) \<le> x \<Longrightarrow> x < 2 ^ 63 \<Longrightarrow> wrap64 x = x"
  by (simp add: wrap64_def)

text \<open>
  Claim C8. A policy whose jitter bound is 0 should be handled as "no jitter". In the code
  the bound is passed to \<^verbatim>\<open>rnd.Int63n\<close> unguarded, and \<^verbatim>\<open>Int63n(0)\<close> panics: with
  the default base and cap, jitter 0 and a fresh state, the call panics for every raw draw,
  after it has already incremented \<open>attempt\<close>, and it never sleeps.
\<close>

theorem ExponentialBackoff_jitter_zero_panics:
  "(ExponentialBackoff conv u
      \<lparr>base = 50, cap = 60000, jitter = 0, attempt = 0, elapsed = 0\<rparr>)
   = \<lparr>result = Panicked, sleeps = [],
      after = \<lparr>base = 50, cap = 60000, jitter = 0, attempt = 1, elapsed = 0\<rparr>\<rparr>"
  by (simp add: ExponentialBackoff_def Int63n_def wrap64_def)

lemma wrap64_nonneg: "0 \<le> x \<Longrightarrow> x < 2 ^ 63 \<Longrightarrow> wrap64 x = x"
  by (simp add: wrap64_def)

lemma backoff_with_sleep:
  assumes lt: "elapsed r < cap r" and j: "0 < jitter r" and e0: "0 \<le> elapsed r"
    and s: "wrap64 (base r * pow2_int64 conv (wrap64 (attempt r + 1))) = s" and s0: "0 \<le> s"
    and b: "cap r + s + jitter r < 2 ^ 63"
  shows "(ExponentialBackoff conv u r) =
     (if elapsed r + (s + int u mod jitter r) > cap r
      then \<lparr>result = Returned None, sleeps = [cap r - elapsed r],
            after = r\<lparr>attempt := wrap64 (attempt r + 1), elapsed := cap r\<rparr>\<rparr>
      else \<lparr>result = Returned None, sleeps = [wrap64 ((s + int u mod jitter r) * 1000000)],
            after = r\<lparr>attempt := wrap64 (attempt r + 1),
                       elapsed := elapsed r + (s + int u mod jitter r)\<rparr>\<rparr>)"
proof -
  let ?jit = "int u mod jitter r"
  have j0: "0 \<le> ?jit" and j1: "?jit < jitter r" using j by simp_all
  have w: "wrap64 (s + ?jit) = s + ?jit"
    using s0 j0 j1 b e0 lt by (intro wrap64_id) linarith+
  have ew: "wrap64 (elapsed r + (s + ?jit)) = elapsed r + (s + ?jit)"
    using s0 j0 j1 b e0 lt by (intro wrap64_id) linarith+
  have we: "wrap64 (s + ?jit + elapsed r) = s + ?jit + elapsed r"
    using s0 j0 j1 b e0 lt by (intro wrap64_id) linarith+
  have d1: "wrap64 (s + ?jit + elapsed r - cap r) = s + ?jit + elapsed r - cap r"
    using s0 j0 j1 b e0 lt by (intro wrap64_id) linarith+
  have d2: "wrap64 (s + ?jit - (s + ?jit + elapsed r - cap r)) = cap r - elapsed r"
  proof -
    have "s + ?jit - (s + ?jit + elapsed r - cap r) = cap r - elapsed r" by simp
    moreover have "wrap64 (cap r - elapsed r) = cap r - elapsed r"
      using s0 j0 j1 b e0 lt by (intro wrap64_id) linarith+
    ultimately show ?thesis by simp
  qed
  have d3: "wrap64 (cap r - elapsed r) = cap r - elapsed r"
    using s0 j0 j1 b e0 lt by (intro wrap64_id) linarith+
  show ?thesis
    using lt j by (simp add: ExponentialBackoff_def Int63n_def Let_def s w ew we d1 d2 d3)
qed

lemma sleep_in_range:
  assumes b1: "0 < base r" and a0: "0 \<le> attempt r"
    and bd: "base r * 2 ^ (nat (attempt r) + 1) < 2 ^ 63"
  shows "wrap64 (attempt r + 1) = attempt r + 1"
    and "wrap64 (base r * pow2_int64 conv (wrap64 (attempt r + 1))) = base r * 2 ^ (nat (attempt r) + 1)"
proof -
  let ?p = "(2::int) ^ (nat (attempt r) + 1)"
  have "?p \<le> base r * ?p" using b1 by simp
  then have p: "?p < 2 ^ 63" using bd by linarith
  have n: "nat (attempt r) + 1 < 63"
  proof (rule ccontr)
    assume "\<not> nat (attempt r) + 1 < 63"
    then have "(2::int) ^ 63 \<le> ?p" by (intro power_increasing) simp_all
    with p show False by linarith
  qed
  then have a: "attempt r + 1 \<le> 62" using a0 by linarith
  show w: "wrap64 (attempt r + 1) = attempt r + 1"
    using a a0 by (auto intro!: wrap64_id)
  have na: "nat (attempt r + 1) = nat (attempt r) + 1" using a0 by simp
  have "pow2_int64 conv (attempt r + 1) = ?p"
    using a a0 by (simp add: pow2_int64_def na)
  moreover have "wrap64 (base r * ?p) = base r * ?p"
  proof (rule wrap64_nonneg)
    show "0 \<le> base r * ?p" using b1 by simp
    show "base r * ?p < 2 ^ 63" by (rule bd)
  qed
  ultimately show "wrap64 (base r * pow2_int64 conv (wrap64 (attempt r + 1))) = base r * ?p"
    by (simp add: w)
qed


lemma sleep_plain:
  assumes b0: "0 \<le> base r" and a0: "0 \<le> attempt r"
    and bd: "base r * 2 ^ (nat (attempt r) + 1) < 2 ^ 63"
  shows "wrap64 (base r * pow2_int64 conv (wrap64 (attempt r + 1))) = base r * 2 ^ (nat (attempt r) + 1)"
proof (cases "base r = 0")
  case True
  then show ?thesis by (simp add: wrap64_def)
next
  case False
  with b0 have "0 < base r" by simp
  then show ?thesis using a0 bd by (rule sleep_in_range(2))
qed

text \<open>
  Claim C3, as amended. For a call on a state with a positive jitter bound, non-negative
  base, elapsed and attempt, and values small enough that no \<^verbatim>\<open>int64\<close> operation
  overflows: the jitter is drawn from \<open>[0, jitter)\<close>. If \<open>elapsed \<ge> cap\<close> the call
  fails with \<open>MaxRetriesExceededError\<close>, sleeps nothing and leaves the state as it was
  (so \<open>attempt\<close> is not incremented). Otherwise the call first increments \<open>attempt\<close>
  by exactly 1 and computes \<open>wait = base * 2 ^ (attempt + 1) + jitter\<close>, the exponent being
  the attempt count after the increment. If \<open>elapsed + wait > cap\<close> it sets \<open>elapsed\<close>
  to \<open>cap\<close> after one sleep of at most \<open>cap - elapsed\<close> milliseconds; otherwise it
  sleeps \<open>wait\<close> milliseconds and adds \<open>wait\<close> to \<open>elapsed\<close>. In both cases it
  returns nil.
\<close>

theorem ExponentialBackoff_step:
  assumes j: "0 < jitter r" and b0: "0 \<le> base r" and e0: "0 \<le> elapsed r"
    and a0: "0 \<le> attempt r" and a1: "attempt r < 2 ^ 63 - 1"
    and bd: "cap r + (base r * 2 ^ (nat (attempt r) + 1) + jitter r) * 1000000 < 2 ^ 63"
  shows "0 \<le> int u mod jitter r \<and> int u mod jitter r < jitter r \<and>
    (if cap r \<le> elapsed r
     then (ExponentialBackoff conv u r) =
            \<lparr>result = Returned (Some MaxRetriesExceededError), sleeps = [], after = r\<rparr>
     else if cap r < elapsed r + backoff_wait r u
     then result (ExponentialBackoff conv u r) = Returned None \<and>
          after (ExponentialBackoff conv u r) =
            r\<lparr>attempt := attempt r + 1, elapsed := cap r\<rparr> \<and>
          (\<exists>d. sleeps (ExponentialBackoff conv u r) = [d] \<and>
               0 \<le> d \<and> d \<le> (cap r - elapsed r) * 1000000)
     else (ExponentialBackoff conv u r) =
            \<lparr>result = Returned None, sleeps = [backoff_wait r u * 1000000],
             after = r\<lparr>attempt := attempt r + 1, elapsed := elapsed r + backoff_wait r u\<rparr>\<rparr>)"
proof -
  let ?p = "base r * 2 ^ (nat (attempt r) + 1)"
  let ?jit = "int u mod jitter r"
  have j0: "0 \<le> ?jit" and j1: "?jit < jitter r" using j by simp_all
  have p0: "0 \<le> ?p" using b0 by simp
  have big: "?p + jitter r \<le> (?p + jitter r) * 1000000" using p0 j by simp
  have c0: "elapsed r < cap r \<Longrightarrow> 0 \<le> cap r" using e0 by simp
  show ?thesis
  proof (cases "cap r \<le> elapsed r")
    case True
    then show ?thesis using j0 j1 by (simp add: ExponentialBackoff_def)
  next
    case False
    then have lt: "elapsed r < cap r" by simp
    have pb: "?p < 2 ^ 63" using big bd j lt e0 by linarith
    have s: "wrap64 (base r * pow2_int64 conv (wrap64 (attempt r + 1))) = ?p"
      using b0 a0 pb by (rule sleep_plain)
    have b': "cap r + ?p + jitter r < 2 ^ 63" using big bd by linarith
    have wa: "wrap64 (attempt r + 1) = attempt r + 1"
      using a0 a1 by (intro wrap64_nonneg) simp_all
    have ms: "wrap64 ((?p + ?jit) * 1000000) = (?p + ?jit) * 1000000"
    proof (rule wrap64_nonneg)
      show "0 \<le> (?p + ?jit) * 1000000" using p0 j0 by simp
      have "(?p + ?jit) * 1000000 \<le> (?p + jitter r) * 1000000" using j1 by simp
      then show "(?p + ?jit) * 1000000 < 2 ^ 63" using bd lt e0 by linarith
    qed
    define w where "w = ?p + ?jit"
    have bw: "backoff_wait r u = w" by (simp add: backoff_wait_def w_def)
    have eq: "(ExponentialBackoff conv u r) =
       (if elapsed r + w > cap r
        then \<lparr>result = Returned None, sleeps = [cap r - elapsed r],
              after = r\<lparr>attempt := attempt r + 1, elapsed := cap r\<rparr>\<rparr>
        else \<lparr>result = Returned None, sleeps = [w * 1000000],
              after = r\<lparr>attempt := attempt r + 1, elapsed := elapsed r + w\<rparr>\<rparr>)"
      using backoff_with_sleep [OF lt j e0 s p0 b', of u]
      by (simp only: wa ms w_def)
    have d: "0 \<le> cap r - elapsed r \<and> cap r - elapsed r \<le> (cap r - elapsed r) * 1000000"
      using lt by simp
    show ?thesis
      unfolding bw using False j0 j1 d by (simp add: eq)
  qed
qed

text \<open>
  The theorem at the default policy, a fresh state and the raw draw 7: the call sleeps
  \<open>50 * 2 + 7 = 107\<close> milliseconds.
\<close>

theorem ExponentialBackoff_step_witness:
  "(ExponentialBackoff conv_amd64 7
      \<lparr>base = 50, cap = 60000, jitter = 250, attempt = 0, elapsed = 0\<rparr>) =
   \<lparr>result = Returned None, sleeps = [107000000],
    after = \<lparr>base = 50, cap = 60000, jitter = 250, attempt = 1, elapsed = 107\<rparr>\<rparr>"
  using ExponentialBackoff_step
    [of "\<lparr>base = 50, cap = 60000, jitter = 250, attempt = 0, elapsed = 0\<rparr>" 7 conv_amd64]
  by (simp add: backoff_wait_def)

text \<open>
  Claim C3 as stated fails: it takes the exponent to be the attempt count before the
  increment. With the default policy, a fresh state (attempt 0) and the raw draw 0, the
  claim's wait is \<open>50 * 2 ^ 0 + 0 = 50\<close>; the code sleeps 100 milliseconds and adds 100
  to \<open>elapsed\<close>.
\<close>

theorem ExponentialBackoff_preincrement_counterexample:
  "sleeps (ExponentialBackoff conv_amd64 0
       \<lparr>base = 50, cap = 60000, jitter = 250, attempt = 0, elapsed = 0\<rparr>)
     = [100 * 1000000]
   \<and> elapsed (after (ExponentialBackoff conv_amd64 0
       \<lparr>base = 50, cap = 60000, jitter = 250, attempt = 0, elapsed = 0\<rparr>))
     = 100
   \<and> elapsed (after (ExponentialBackoff conv_amd64 0
       \<lparr>base = 50, cap = 60000, jitter = 250, attempt = 0, elapsed = 0\<rparr>))
     \<noteq> elapsed \<lparr>base = 50, cap = 60000, jitter = 250, attempt = 0, elapsed = 0\<rparr>
        + (base \<lparr>base = 50, cap = 60000, jitter = 250, attempt = 0, elapsed = 0\<rparr>
             * 2 ^ nat (attempt \<lparr>base = 50, cap = 60000, jitter = 250, attempt = 0, elapsed = 0\<rparr>)
           + int 0 mod jitter \<lparr>base = 50, cap = 60000, jitter = 250, attempt = 0, elapsed = 0\<rparr>)"
  by (simp add: ExponentialBackoff_def Int63n_def wrap64_def pow2_int64_def)

lemma backoff_inv_step:
  assumes inv: "backoff_inv r"
  shows "backoff_inv (after (ExponentialBackoff conv u r)) \<and>
         elapsed r \<le> elapsed (after (ExponentialBackoff conv u r)) \<and>
         cap (after (ExponentialBackoff conv u r)) = cap r"
proof (cases "cap r \<le> elapsed r")
  case True
  then show ?thesis using inv by (simp add: ExponentialBackoff_def)
next
  case False
  then have lt: "elapsed r < cap r" by simp
  from inv have b0: "0 \<le> base r" and j: "0 < jitter r" and e0: "0 \<le> elapsed r"
    and bd: "2 * cap r + 2 * base r + jitter r < 2 ^ 63"
    by (simp_all add: backoff_inv_def)
  let ?jit = "int u mod jitter r"
  have j0: "0 \<le> ?jit" and j1: "?jit < jitter r" using j by simp_all
  show ?thesis
  proof (cases "base r = 0")
    case True
    have s: "wrap64 (base r * pow2_int64 conv (wrap64 (attempt r + 1))) = 0"
      using True by (simp add: wrap64_def)
    have b': "cap r + 0 + jitter r < 2 ^ 63" using bd b0 lt e0 by linarith
    have eq: "(ExponentialBackoff conv u r) =
       (if elapsed r + (0 + ?jit) > cap r
        then \<lparr>result = Returned None, sleeps = [cap r - elapsed r],
              after = r\<lparr>attempt := wrap64 (attempt r + 1), elapsed := cap r\<rparr>\<rparr>
        else \<lparr>result = Returned None, sleeps = [wrap64 ((0 + ?jit) * 1000000)],
              after = r\<lparr>attempt := wrap64 (attempt r + 1),
                         elapsed := elapsed r + (0 + ?jit)\<rparr>\<rparr>)"
      using lt j e0 s _ b' by (rule backoff_with_sleep) simp
    show ?thesis
      using True inv lt j0 by (auto simp: eq backoff_inv_def)
  next
    case False
    with b0 have b1: "0 < base r" by simp
    let ?p = "(2::int) ^ (nat (attempt r) + 1)"
    from inv b1 lt have a0: "0 \<le> attempt r" and low: "base r * (?p - 2) \<le> elapsed r"
      by (simp_all add: backoff_inv_def)
    have split: "base r * ?p = base r * (?p - 2) + 2 * base r" by (simp add: algebra_simps)
    have pb: "base r * ?p < 2 ^ 63" using split low lt bd e0 b0 j by linarith
    have wa: "wrap64 (attempt r + 1) = attempt r + 1"
      using b1 a0 pb by (rule sleep_in_range(1))
    have s: "wrap64 (base r * pow2_int64 conv (wrap64 (attempt r + 1))) = base r * ?p"
      using b1 a0 pb by (rule sleep_in_range(2))
    have p0: "0 \<le> base r * ?p" using b0 by simp
    have b': "cap r + base r * ?p + jitter r < 2 ^ 63" using split low lt bd e0 b0 j by linarith
    define w where "w = base r * ?p + ?jit"
    have w0: "base r * ?p \<le> w" using j0 by (simp add: w_def)
    have eq: "(ExponentialBackoff conv u r) =
       (if elapsed r + w > cap r
        then \<lparr>result = Returned None, sleeps = [cap r - elapsed r],
              after = r\<lparr>attempt := attempt r + 1, elapsed := cap r\<rparr>\<rparr>
        else \<lparr>result = Returned None, sleeps = [wrap64 (w * 1000000)],
              after = r\<lparr>attempt := attempt r + 1, elapsed := elapsed r + w\<rparr>\<rparr>)"
      using backoff_with_sleep [OF lt j e0 s p0 b', of u]
      by (simp only: wa w_def)
    show ?thesis
    proof (cases "elapsed r + w > cap r")
      case True
      then show ?thesis using inv lt by (simp add: eq backoff_inv_def)
    next
      case False
      have na: "nat (attempt r + 1) = nat (attempt r) + 1" using a0 by simp
      have next_low: "base r * (2 ^ (nat (attempt r + 1) + 1) - 2) \<le> elapsed r + w"
      proof -
        have "base r * (2 ^ (nat (attempt r + 1) + 1) - 2) = base r * (2 * ?p - 2)"
          unfolding na by simp
        also have "\<dots> = base r * (?p - 2) + base r * ?p"
          by (simp add: algebra_simps)
        finally have "base r * (2 ^ (nat (attempt r + 1) + 1) - 2) = base r * (?p - 2) + base r * ?p" .
        then show ?thesis using low w0 by linarith
      qed
      have ge: "elapsed r \<le> elapsed r + w" using w0 p0 by linarith
      show ?thesis
        using False inv a0 next_low ge e0 by (simp add: eq backoff_inv_def)
    qed
  qed
qed

lemma backoff_states_inv:
  "backoff_inv r \<Longrightarrow>
     sorted (map elapsed (backoff_states conv us r)) \<and>
     (\<forall>s \<in> set (backoff_states conv us r). elapsed r \<le> elapsed s \<and> elapsed s \<le> cap r)"
proof (induction us arbitrary: r)
  case Nil
  then show ?case by (simp add: backoff_inv_def)
next
  case (Cons u us)
  let ?r' = "after (ExponentialBackoff conv u r)"
  from backoff_inv_step [OF Cons.prems, of conv u]
  have inv': "backoff_inv ?r'" and mono: "elapsed r \<le> elapsed ?r'" and c: "cap ?r' = cap r"
    by simp_all
  from Cons.IH [OF inv'] have srt: "sorted (map elapsed (backoff_states conv us ?r'))"
    and bnd: "\<forall>s \<in> set (backoff_states conv us ?r'). elapsed ?r' \<le> elapsed s \<and> elapsed s \<le> cap ?r'"
    by simp_all
  have le: "elapsed r \<le> cap r" using Cons.prems by (simp add: backoff_inv_def)
  show ?case using srt bnd mono c le by auto
qed

lemma NewRetries_inv:
  "0 \<le> Base f \<Longrightarrow> 0 \<le> Cap f \<Longrightarrow> 0 < Jitter f \<Longrightarrow> 2 * Cap f + 2 * Base f + Jitter f < 2 ^ 63
     \<Longrightarrow> backoff_inv (NewRetries f)"
  by (simp add: backoff_inv_def NewRetries_def)

text \<open>
  Claim C4, as amended. For every policy with non-negative base and cap, a positive jitter
  bound and \<open>2 * cap + 2 * base + jitter < 2 ^ 63\<close>, and every sequence of backoff calls
  on a state made by \<^verbatim>\<open>NewRetries\<close>, whatever the random draws: \<open>elapsed\<close> never
  decreases and never exceeds \<open>cap\<close>. And for every state whatsoever, once
  \<open>elapsed \<ge> cap\<close> the next call fails with \<open>MaxRetriesExceededError\<close>, sleeps
  nothing and leaves the state unchanged.
\<close>

theorem backoff_elapsed_monotone_capped:
  assumes "0 \<le> Base f" and "0 \<le> Cap f" and "0 < Jitter f"
    and "2 * Cap f + 2 * Base f + Jitter f < 2 ^ 63"
  shows "sorted (map elapsed (backoff_states conv us (NewRetries f))) \<and>
         (\<forall>s \<in> set (backoff_states conv us (NewRetries f)). elapsed s \<le> Cap f) \<and>
         (\<forall>r u. cap r \<le> elapsed r \<longrightarrow>
            (ExponentialBackoff conv u r) =
              \<lparr>result = Returned (Some MaxRetriesExceededError), sleeps = [], after = r\<rparr>)"
proof -
  have inv: "backoff_inv (NewRetries f)" using assms by (rule NewRetries_inv)
  have c: "cap (NewRetries f) = Cap f" by (simp add: NewRetries_def)
  from backoff_states_inv [OF inv, of conv us] c
  have "sorted (map elapsed (backoff_states conv us (NewRetries f)))"
    and "\<forall>s \<in> set (backoff_states conv us (NewRetries f)). elapsed s \<le> Cap f"
    by simp_all
  moreover have "\<forall>r u. cap r \<le> elapsed r \<longrightarrow>
            (ExponentialBackoff conv u r) =
              \<lparr>result = Returned (Some MaxRetriesExceededError), sleeps = [], after = r\<rparr>"
    by (simp add: ExponentialBackoff_def)
  ultimately show ?thesis by simp
qed

text \<open>
  The theorem at base 50, cap 300, jitter bound 250 and three calls: the second call is
  clamped to the cap and the third fails.
\<close>

theorem backoff_elapsed_monotone_capped_witness:
  "map elapsed (backoff_states conv_amd64 [7, 3, 9] (NewRetries \<lparr>Base = 50, Cap = 300, Jitter = 250\<rparr>))
     = [0, 107, 300, 300] \<and>
   sorted (map elapsed (backoff_states conv_amd64 [7, 3, 9] (NewRetries \<lparr>Base = 50, Cap = 300, Jitter = 250\<rparr>))) \<and>
   (ExponentialBackoff conv_amd64 9 \<lparr>base = 50, cap = 300, jitter = 250, attempt = 2, elapsed = 300\<rparr>) =
     \<lparr>result = Returned (Some MaxRetriesExceededError), sleeps = [],
      after = \<lparr>base = 50, cap = 300, jitter = 250, attempt = 2, elapsed = 300\<rparr>\<rparr>"
proof -
  have m: "map elapsed (backoff_states conv_amd64 [7, 3, 9] (NewRetries \<lparr>Base = 50, Cap = 300, Jitter = 250\<rparr>))
     = [0, 107, 300, 300]"
    by (simp add: NewRetries_def ExponentialBackoff_def Int63n_def wrap64_def pow2_int64_def)
  from backoff_elapsed_monotone_capped [of "\<lparr>Base = 50, Cap = 300, Jitter = 250\<rparr>" conv_amd64 "[7, 3, 9]"]
  show ?thesis using m by simp
qed

text \<open>
  Claim C4 as stated fails for policies whose arithmetic leaves \<^verbatim>\<open>int64\<close>. With
  base \<open>2 ^ 62\<close>, cap \<open>2 ^ 63 - 1\<close> and jitter bound 1, the first call computes
  \<open>base * 2 = 2 ^ 63\<close>, which wraps to \<open>- 2 ^ 63\<close>; the sum does not exceed the cap,
  so it is added to \<open>elapsed\<close>, which drops from 0 to \<open>- 2 ^ 63\<close>.
\<close>

theorem backoff_overflow_counterexample:
  "map elapsed (backoff_states conv_amd64 [0]
      (NewRetries \<lparr>Base = 4611686018427387904, Cap = 9223372036854775807, Jitter = 1\<rparr>))
     = [0, - 9223372036854775808]"
  by (simp add: NewRetries_def ExponentialBackoff_def Int63n_def wrap64_def pow2_int64_def)

section \<open>Properties of the transaction coordinator\<close>

lemma newTxWriteItem_read:
  "request ti = ''R'' \<Longrightarrow> newTxWriteItem createAV MarshalMap ti = Returned (Inl InvalidRequestTypeError)"
  by (simp add: newTxWriteItem_def GetRequest_def)

lemma txWriteItems_read_no_success:
  "ti \<in> set items \<Longrightarrow> request ti = ''R'' \<Longrightarrow>
     txWriteItems createAV MarshalMap items \<noteq> Returned (Inr txItems)"
proof (induction items arbitrary: txItems)
  case Nil
  then show ?case by simp
next
  case (Cons m rest)
  show ?case
  proof (cases "request m = ''R''")
    case True
    then show ?thesis by (simp add: newTxWriteItem_read)
  next
    case False
    with Cons.prems have "ti \<in> set rest" by auto
    from Cons.IH [OF this Cons.prems(2)]
    have "\<And>xs. txWriteItems createAV MarshalMap rest \<noteq> Returned (Inr xs)" .
    then show ?thesis
      by (auto split: go_result.splits sum.splits)
  qed
qed

lemma txWriteItems_first_read:
  "ti \<in> set items \<Longrightarrow> request ti = ''R'' \<Longrightarrow>
   \<forall>m \<in> set (takeWhile (\<lambda>m. request m \<noteq> ''R'') items).
      \<exists>x. newTxWriteItem createAV MarshalMap m = Returned (Inr x) \<Longrightarrow>
   txWriteItems createAV MarshalMap items
     = Returned (Inl (Errorf ''newTxWriteItem'' InvalidRequestTypeError))"
proof (induction items)
  case Nil
  then show ?case by simp
next
  case (Cons m rest)
  show ?case
  proof (cases "request m = ''R''")
    case True
    then show ?thesis by (simp add: newTxWriteItem_read)
  next
    case False
    with Cons.prems(1,2) have in_rest: "ti \<in> set rest" by auto
    from False Cons.prems(3) obtain x where x: "newTxWriteItem createAV MarshalMap m = Returned (Inr x)"
      by auto
    from False Cons.prems(3)
    have "\<forall>m \<in> set (takeWhile (\<lambda>m. request m \<noteq> ''R'') rest).
            \<exists>x. newTxWriteItem createAV MarshalMap m = Returned (Inr x)"
      by simp
    from Cons.IH [OF in_rest Cons.prems(2) this] x show ?thesis by simp
  qed
qed

text \<open>
  Claim C10, as amended. A submission that contains a member of kind R (as
  \<^verbatim>\<open>NewReadTxItem\<close> builds it) never reaches the backend. If moreover it has at most 25
  members and every member before its first read member is built without error or panic,
  \<^verbatim>\<open>TxWrite\<close> returns no failed members and the error \<open>InvalidRequestTypeError\<close>,
  wrapped with the prefix \<^verbatim>\<open>newTxWriteItem\<close>.
\<close>

theorem TxWrite_read_member:
  assumes "ti \<in> set items" and "request ti = ''R''"
  shows "tx_requests (TxWrite createAV MarshalMap svc items requestToken) = [] \<and>
         (length items \<le> 25 \<and>
          (\<forall>m \<in> set (takeWhile (\<lambda>m. request m \<noteq> ''R'') items).
              \<exists>x. newTxWriteItem createAV MarshalMap m = Returned (Inr x))
          \<longrightarrow> tx_result (TxWrite createAV MarshalMap svc items requestToken)
                = Returned ([], Some (Errorf ''newTxWriteItem'' InvalidRequestTypeError)))"
proof -
  have no: "\<And>xs. txWriteItems createAV MarshalMap items \<noteq> Returned (Inr xs)"
    using assms by (rule txWriteItems_read_no_success)
  have calls: "tx_requests (TxWrite createAV MarshalMap svc items requestToken) = []"
    using no by (auto simp: TxWrite_def split: go_result.splits sum.splits)
  have res: "tx_result (TxWrite createAV MarshalMap svc items requestToken)
                = Returned ([], Some (Errorf ''newTxWriteItem'' InvalidRequestTypeError))"
    if "length items \<le> 25"
      and "\<forall>m \<in> set (takeWhile (\<lambda>m. request m \<noteq> ''R'') items).
              \<exists>x. newTxWriteItem createAV MarshalMap m = Returned (Inr x)"
    using txWriteItems_first_read [OF assms that(2)] that(1) by (simp add: TxWrite_def)
  show ?thesis using calls res by blast
qed

text \<open>
  The theorem at a submission of one create member followed by one read member, on a
  backend that would accept the transaction.
\<close>

theorem TxWrite_read_member_witness:
  "TxWrite (\<lambda>v. ()) marshalOk accepts [createMember ''create-1'', readMember ''read-1''] ''token-1''
     = \<lparr>tx_result = Returned ([], Some (Errorf ''newTxWriteItem'' InvalidRequestTypeError)),
        tx_requests = []\<rparr>"
proof -
  have r: "request (readMember ''read-1'') = ''R''"
    by (simp add: readMember_def NewReadTxItem_def)
  have m: "readMember ''read-1'' \<in> set [createMember ''create-1'', readMember ''read-1'']"
    by simp
  have b: "length [createMember ''create-1'', readMember ''read-1''] \<le> 25 \<and>
      (\<forall>m \<in> set (takeWhile (\<lambda>m. request m \<noteq> ''R'') [createMember ''create-1'', readMember ''read-1'']).
          \<exists>x. newTxWriteItem (\<lambda>v. ()) marshalOk m = Returned (Inr x))"
    by (simp add: createMember_def readMember_def NewCreateTxItem_def NewReadTxItem_def
        newTxWriteItem_def GetRequest_def marshalMap_def marshalOk_def)
  from TxWrite_read_member [OF m r, of "\<lambda>v. ()" marshalOk accepts "''token-1''"] b
  show ?thesis by (cases "TxWrite (\<lambda>v. ()) marshalOk accepts [createMember ''create-1'', readMember ''read-1''] ''token-1''") simp
qed

text \<open>
  Claim C10 as stated fails: the size check comes first. A submission of 26 read members
  fails with \<open>TxItemsExceedsLimitError\<close>, not with \<open>InvalidRequestTypeError\<close>.
\<close>

theorem TxWrite_read_member_counterexample:
  "TxWrite (\<lambda>v. ()) marshalOk accepts (replicate 26 (readMember ''read'')) []
     = \<lparr>tx_result = Returned ([], Some TxItemsExceedsLimitError), tx_requests = []\<rparr>"
  by (simp add: TxWrite_def)

text \<open>
  Claim C5. The failed list returned with \<open>TxConditonCheckFailedError\<close> should hold
  exactly the members whose reason is a failed condition check. The code appends to the
  same list for a throttled reason as well: for two members, the first with reason
  \<^verbatim>\<open>ConditionalCheckFailed\<close> and the second with reason \<^verbatim>\<open>ThrottlingError\<close>, it returns
  both members with \<open>TxConditonCheckFailedError\<close> (and the message of the throttled
  reason).
\<close>

theorem TxWrite_mixed_reasons_failed_list:
  "TxWrite (\<lambda>v. ()) marshalOk
     (canceled [\<lparr>Code = Some ''ConditionalCheckFailed'', Message = Some ''Condition failed''\<rparr>,
                \<lparr>Code = Some ''ThrottlingError'', Message = Some ''Throttled''\<rparr>])
     [createMember ''create-1'', createMember ''create-2''] []
   = \<lparr>tx_result = Returned ([createMember ''create-1'', createMember ''create-2''],
                             Some (TxConditonCheckFailedError ''Throttled'')),
      tx_requests = [\<lparr>ClientRequestToken = None,
                      TransactItems = [Put () () ''test-table'', Put () () ''test-table'']\<rparr>]\<rparr>"
  by (simp add: TxWrite_def newTxWriteItem_def GetRequest_def marshalMap_def marshalOk_def
      createMember_def NewCreateTxItem_def testTable_def canceled_def)

text \<open>
  Claim C6. When the reason list is longer than the member list, the call should complete
  without fault and attribute nothing it cannot. The code indexes the members with the
  position of the reason and no bound check: for one member and the reasons
  \<^verbatim>\<open>None\<close>, \<^verbatim>\<open>ConditionalCheckFailed\<close>, it evaluates \<^verbatim>\<open>items[1]\<close> and panics.
\<close>

theorem TxWrite_longer_reasons_panics:
  "TxWrite (\<lambda>v. ()) marshalOk
     (canceled [\<lparr>Code = Some ''None'', Message = None\<rparr>,
                \<lparr>Code = Some ''ConditionalCheckFailed'', Message = Some ''Condition failed''\<rparr>])
     [createMember ''create-1''] []
   = \<lparr>tx_result = Panicked,
      tx_requests = [\<lparr>ClientRequestToken = None, TransactItems = [Put () () ''test-table'']\<rparr>]\<rparr>"
  by (simp add: TxWrite_def newTxWriteItem_def GetRequest_def marshalMap_def marshalOk_def
      createMember_def NewCreateTxItem_def testTable_def canceled_def)

section \<open>Properties of the batch coordinator\<close>

lemma errorSwitch_nil_result:
  "errorSwitch conv u retries unprocessed fail util input None (Some e) =
     Stop (if as_throttled e \<or> (\<exists>a. as_aws e = Some a \<and> Retryable a) then Panicked
           else Returned (fail (case as_aws e of Some a \<Rightarrow> Errorf util e
                                | None \<Rightarrow> InternalError (Errorf util e))))"
  by (simp add: errorSwitch_def retryArm_def split: option.splits)

lemma errorSwitch_no_error:
  "errorSwitch conv u retries unprocessed fail util input res None = Continue input retries []"
  by (simp add: errorSwitch_def)

lemma batchWriteLoop_error:
  "reply st = Inl e \<Longrightarrow>
   batchWriteLoop conv retries input (st # rest) =
     \<lparr>outcome = Finished
         (let err = handleErr (Errorf ''q.svc.BatchWriteItem'' (Foreign (Sdk e))) in
          if as_throttled err \<or> (\<exists>a. as_aws err = Some a \<and> Retryable a) then Panicked
          else Returned (Some (case as_aws err of Some a \<Rightarrow> Errorf ''q.batchWriteUtil'' err
                               | None \<Rightarrow> InternalError (Errorf ''q.batchWriteUtil'' err)))),
      requests = [input], slept = []\<rparr>"
  by (simp add: batchWriteUtil_def errorSwitch_nil_result Let_def)

lemma batchWriteLoop_reply:
  "reply st = Inr res \<Longrightarrow>
   batchWriteLoop conv retries input (st # rest) =
     (if UnprocessedItems res = []
      then \<lparr>outcome = Finished (Returned None), requests = [input], slept = []\<rparr>
      else \<lparr>outcome = outcome (batchWriteLoop conv retries input rest),
            requests = input # requests (batchWriteLoop conv retries input rest),
            slept = slept (batchWriteLoop conv retries input rest)\<rparr>)"
  by (simp add: batchWriteUtil_def errorSwitch_no_error Let_def)

lemma batchWriteLoop_requests: "requests (batchWriteLoop conv retries input steps) \<noteq> [] \<and>
   hd (requests (batchWriteLoop conv retries input steps)) = input"
proof (cases steps)
  case Nil
  then show ?thesis by simp
next
  case (Cons st rest)
  show ?thesis
  proof (cases "reply st")
    case (Inl e)
    then show ?thesis unfolding Cons by (simp add: batchWriteLoop_error del: batchWriteLoop.simps)
  next
    case (Inr res)
    then show ?thesis unfolding Cons by (simp add: batchWriteLoop_reply del: batchWriteLoop.simps)
  qed
qed

lemma batchWriteLoop_success:
  "outcome (batchWriteLoop conv retries input steps) = Finished (Returned None) \<Longrightarrow>
   length (requests (batchWriteLoop conv retries input steps)) \<le> length steps \<and>
   (\<exists>res. reply (steps ! (length (requests (batchWriteLoop conv retries input steps)) - 1)) = Inr res \<and>
          UnprocessedItems res = [])"
proof (induction steps)
  case Nil
  then show ?case by simp
next
  case (Cons st rest)
  show ?case
  proof (cases "reply st")
    case (Inl e)
    with Cons.prems show ?thesis
      by (simp add: batchWriteLoop_error Let_def del: batchWriteLoop.simps split: if_splits)
  next
    case (Inr res)
    show ?thesis
    proof (cases "UnprocessedItems res = []")
      case True
      with Inr show ?thesis by (simp add: batchWriteLoop_reply del: batchWriteLoop.simps)
    next
      case False
      with Inr Cons.prems have "outcome (batchWriteLoop conv retries input rest) = Finished (Returned None)"
        by (simp add: batchWriteLoop_reply del: batchWriteLoop.simps)
      from Cons.IH [OF this] batchWriteLoop_requests [of conv retries input rest]
      show ?thesis using Inr False
        by (cases "requests (batchWriteLoop conv retries input rest)")
           (simp_all add: batchWriteLoop_reply del: batchWriteLoop.simps)
    qed
  qed
qed

lemma batchGetLoop_error:
  "reply st = Inl e \<Longrightarrow>
   batchGetLoop conv UnmarshalMap name refObjs items retries input (st # rest) =
     \<lparr>outcome = Finished
         (let err = handleErr (Errorf ''q.svc.BatchGetItem'' (Foreign (Sdk e))) in
          if as_throttled err \<or> (\<exists>a. as_aws err = Some a \<and> Retryable a) then Panicked
          else Returned ([], Some (case as_aws err of Some a \<Rightarrow> Errorf ''q.batchGetUtil'' err
                                   | None \<Rightarrow> InternalError (Errorf ''q.batchGetUtil'' err)))),
      requests = [input], slept = []\<rparr>"
  by (simp add: batchGetUtil_def errorSwitch_nil_result Let_def)

lemma batchGetLoop_reply:
  "reply st = Inr res \<Longrightarrow>
   batchGetLoop conv UnmarshalMap name refObjs items retries input (st # rest) =
     (case unmarshalResponses UnmarshalMap refObjs 0 (tableResponses (Responses res) name) items of
        Panicked \<Rightarrow> \<lparr>outcome = Finished Panicked, requests = [input], slept = []\<rparr>
      | Returned (Inl err) \<Rightarrow>
          \<lparr>outcome = Finished (Returned ([], Some err)), requests = [input], slept = []\<rparr>
      | Returned (Inr items') \<Rightarrow>
          if UnprocessedKeys res = []
          then \<lparr>outcome = Finished (Returned (items', None)), requests = [input], slept = []\<rparr>
          else \<lparr>outcome = outcome (batchGetLoop conv UnmarshalMap name refObjs items' retries input rest),
                requests = input # requests (batchGetLoop conv UnmarshalMap name refObjs items' retries input rest),
                slept = slept (batchGetLoop conv UnmarshalMap name refObjs items' retries input rest)\<rparr>)"
  by (simp add: batchGetUtil_def errorSwitch_no_error Let_def split: go_result.splits sum.splits)

lemma batchGetLoop_requests:
  "requests (batchGetLoop conv UnmarshalMap name refObjs items retries input steps) \<noteq> [] \<and>
   hd (requests (batchGetLoop conv UnmarshalMap name refObjs items retries input steps)) = input"
proof (cases steps)
  case Nil
  then show ?thesis by simp
next
  case (Cons st rest)
  show ?thesis
  proof (cases "reply st")
    case (Inl e)
    then show ?thesis unfolding Cons by (simp add: batchGetLoop_error del: batchGetLoop.simps)
  next
    case (Inr res)
    then show ?thesis unfolding Cons
      by (simp add: batchGetLoop_reply del: batchGetLoop.simps split: go_result.splits sum.splits)
  qed
qed

lemma batchGetLoop_success:
  "outcome (batchGetLoop conv UnmarshalMap name refObjs items retries input steps)
      = Finished (Returned (its, None)) \<Longrightarrow>
   length (requests (batchGetLoop conv UnmarshalMap name refObjs items retries input steps)) \<le> length steps \<and>
   (\<exists>res. reply (steps ! (length (requests (batchGetLoop conv UnmarshalMap name refObjs items retries input steps)) - 1))
            = Inr res \<and> UnprocessedKeys res = [])"
proof (induction steps arbitrary: items)
  case Nil
  then show ?case by simp
next
  case (Cons st rest)
  show ?case
  proof (cases "reply st")
    case (Inl e)
    with Cons.prems show ?thesis
      by (simp add: batchGetLoop_error Let_def del: batchGetLoop.simps split: if_splits)
  next
    case (Inr res)
    show ?thesis
    proof (cases "unmarshalResponses UnmarshalMap refObjs 0 (tableResponses (Responses res) name) items")
      case Panicked
      with Inr Cons.prems show ?thesis by (simp add: batchGetLoop_reply del: batchGetLoop.simps)
    next
      case (Returned x)
      show ?thesis
      proof (cases x)
        case (Inl err)
        with Returned Inr Cons.prems show ?thesis
          by (simp add: batchGetLoop_reply del: batchGetLoop.simps)
      next
        case (Inr items')
        note un = Returned [unfolded Inr]
        show ?thesis
        proof (cases "UnprocessedKeys res = []")
          case True
          with un \<open>reply st = Inr res\<close> show ?thesis
            by (simp add: batchGetLoop_reply del: batchGetLoop.simps)
        next
          case False
          with un \<open>reply st = Inr res\<close> Cons.prems
          have "outcome (batchGetLoop conv UnmarshalMap name refObjs items' retries input rest)
                  = Finished (Returned (its, None))"
            by (simp add: batchGetLoop_reply del: batchGetLoop.simps)
          from Cons.IH [OF this] batchGetLoop_requests [of conv UnmarshalMap name refObjs items' retries input rest]
          show ?thesis using un \<open>reply st = Inr res\<close> False
            by (cases "requests (batchGetLoop conv UnmarshalMap name refObjs items' retries input rest)")
               (simp_all add: batchGetLoop_reply del: batchGetLoop.simps)
        qed
      qed
    qed
  qed
qed

text \<open>
  What the loops do keep: none of the three batch operations returns success while the
  backend reports unprocessed items. Whenever \<^verbatim>\<open>BatchWriteCreate\<close> or
  \<^verbatim>\<open>BatchWriteDelete\<close> returns the nil error, or \<^verbatim>\<open>BatchGet\<close> returns results with the
  nil error, the reply to the last request it issued was a success whose unprocessed set
  is empty.
\<close>

theorem batch_success_only_after_empty_unprocessed:
  "(outcome (BatchWriteCreate conv MarshalMap tables fc tableName items steps) = Finished (Returned None)
      \<longrightarrow> length (requests (BatchWriteCreate conv MarshalMap tables fc tableName items steps)) \<le> length steps \<and>
          (\<exists>res. reply (steps ! (length (requests (BatchWriteCreate conv MarshalMap tables fc tableName items steps)) - 1))
                   = Inr res \<and> UnprocessedItems res = [])) \<and>
   (outcome (BatchWriteDelete conv createAV tables fc tableName queries steps) = Finished (Returned None)
      \<longrightarrow> length (requests (BatchWriteDelete conv createAV tables fc tableName queries steps)) \<le> length steps \<and>
          (\<exists>res. reply (steps ! (length (requests (BatchWriteDelete conv createAV tables fc tableName queries steps)) - 1))
                   = Inr res \<and> UnprocessedItems res = [])) \<and>
   (outcome (BatchGet conv createAV UnmarshalMap tables fc tableName queries refObjs gsteps)
        = Finished (Returned (its, None))
      \<longrightarrow> length (requests (BatchGet conv createAV UnmarshalMap tables fc tableName queries refObjs gsteps))
            \<le> length gsteps \<and>
          (\<exists>res. reply (gsteps ! (length (requests (BatchGet conv createAV UnmarshalMap tables fc tableName queries refObjs gsteps)) - 1))
                   = Inr res \<and> UnprocessedKeys res = []))"
proof (intro conjI impI)
  assume a: "outcome (BatchWriteCreate conv MarshalMap tables fc tableName items steps) = Finished (Returned None)"
  then have "\<exists>input. BatchWriteCreate conv MarshalMap tables fc tableName items steps
         = batchWriteLoop conv (NewRetries fc) input steps"
    by (auto simp: BatchWriteCreate_def finished_def split: if_splits option.splits sum.splits)
  then obtain input where
    eq: "BatchWriteCreate conv MarshalMap tables fc tableName items steps
         = batchWriteLoop conv (NewRetries fc) input steps" ..
  from a batchWriteLoop_success [of conv "NewRetries fc" input steps]
  show "length (requests (BatchWriteCreate conv MarshalMap tables fc tableName items steps)) \<le> length steps"
    and "\<exists>res. reply (steps ! (length (requests (BatchWriteCreate conv MarshalMap tables fc tableName items steps)) - 1))
                   = Inr res \<and> UnprocessedItems res = []"
    unfolding eq by simp_all
next
  assume a: "outcome (BatchWriteDelete conv createAV tables fc tableName queries steps) = Finished (Returned None)"
  then have "\<exists>input. BatchWriteDelete conv createAV tables fc tableName queries steps
         = batchWriteLoop conv (NewRetries fc) input steps"
    by (auto simp: BatchWriteDelete_def finished_def split: if_splits option.splits)
  then obtain input where
    eq: "BatchWriteDelete conv createAV tables fc tableName queries steps
         = batchWriteLoop conv (NewRetries fc) input steps" ..
  from a batchWriteLoop_success [of conv "NewRetries fc" input steps]
  show "length (requests (BatchWriteDelete conv createAV tables fc tableName queries steps)) \<le> length steps"
    and "\<exists>res. reply (steps ! (length (requests (BatchWriteDelete conv createAV tables fc tableName queries steps)) - 1))
                   = Inr res \<and> UnprocessedItems res = []"
    unfolding eq by simp_all
next
  assume a: "outcome (BatchGet conv createAV UnmarshalMap tables fc tableName queries refObjs gsteps)
        = Finished (Returned (its, None))"
  then have "\<exists>name input. BatchGet conv createAV UnmarshalMap tables fc tableName queries refObjs gsteps
         = batchGetLoop conv UnmarshalMap name refObjs [] (NewRetries fc) input gsteps"
    by (auto simp: BatchGet_def finished_def split: if_splits option.splits)
  then obtain name input where
    eq: "BatchGet conv createAV UnmarshalMap tables fc tableName queries refObjs gsteps
         = batchGetLoop conv UnmarshalMap name refObjs [] (NewRetries fc) input gsteps" by blast
  from a batchGetLoop_success [of conv UnmarshalMap name refObjs "[]" "NewRetries fc" input gsteps its]
  show "length (requests (BatchGet conv createAV UnmarshalMap tables fc tableName queries refObjs gsteps))
            \<le> length gsteps"
    and "\<exists>res. reply (gsteps ! (length (requests (BatchGet conv createAV UnmarshalMap tables fc tableName queries refObjs gsteps)) - 1))
                   = Inr res \<and> UnprocessedKeys res = []"
    unfolding eq by simp_all
qed

text \<open>
  The theorem at three runs that return success: a create of one item whose first reply
  leaves the item unprocessed and whose second reply completes the batch, and a delete
  and a get of nothing that are completed by their first reply.
\<close>

theorem batch_success_only_after_empty_unprocessed_witness:
  "BatchWriteCreate conv_amd64 marshalOk testTables DefaultFailConfig ''test-table'' [Some ()] [busy, complete]
     = \<lparr>outcome = Finished (Returned None), requests = [oneItemInput, oneItemInput], slept = []\<rparr> \<and>
   BatchWriteDelete conv_amd64 (\<lambda>v :: unit. ()) testTables DefaultFailConfig ''test-table'' [] [complete]
     = \<lparr>outcome = Finished (Returned None), requests = [\<lparr>RequestItems = [(''test-table'', [])]\<rparr>], slept = []\<rparr> \<and>
   BatchGet conv_amd64 (\<lambda>v :: unit. ()) unmarshalOk testTables DefaultFailConfig ''test-table'' [] [] [completeGet]
     = \<lparr>outcome = Finished (Returned ([], None)),
        requests = [\<lparr>GetRequestItems = [(''test-table'', \<lparr>Keys = []\<rparr>)]\<rparr>], slept = []\<rparr> \<and>
   reply ([busy, complete] ! 1) = Inr \<lparr>UnprocessedItems = []\<rparr> \<and>
   reply ([complete] ! 0) = Inr \<lparr>UnprocessedItems = []\<rparr> \<and>
   reply ([completeGet] ! 0) = Inr \<lparr>Responses = [], UnprocessedKeys = []\<rparr>"
proof -
  have c: "BatchWriteCreate conv_amd64 marshalOk testTables DefaultFailConfig ''test-table'' [Some ()] [busy, complete]
     = \<lparr>outcome = Finished (Returned None), requests = [oneItemInput, oneItemInput], slept = []\<rparr>"
    by (simp add: BatchWriteCreate_def testTables_def marshalOk_def testTable_def busy_def complete_def
        oneItemInput_def batchWriteUtil_def errorSwitch_def)
  have d: "BatchWriteDelete conv_amd64 (\<lambda>v. ()) testTables DefaultFailConfig ''test-table'' [] [complete]
     = \<lparr>outcome = Finished (Returned None), requests = [\<lparr>RequestItems = [(''test-table'', [])]\<rparr>], slept = []\<rparr>"
    by (simp add: BatchWriteDelete_def testTables_def testTable_def complete_def deleteRequests_def
        List.map_filter_simps batchWriteUtil_def errorSwitch_def)
  have g: "BatchGet conv_amd64 (\<lambda>v :: unit. ()) unmarshalOk testTables DefaultFailConfig ''test-table'' [] [] [completeGet]
     = \<lparr>outcome = Finished (Returned ([], None)),
        requests = [\<lparr>GetRequestItems = [(''test-table'', \<lparr>Keys = []\<rparr>)]\<rparr>], slept = []\<rparr>"
    by (simp add: BatchGet_def testTables_def testTable_def completeGet_def List.map_filter_simps
        batchGetUtil_def errorSwitch_def tableResponses_def)
  from batch_success_only_after_empty_unprocessed
    [where conv = conv_amd64 and MarshalMap = marshalOk and tables = testTables and fc = DefaultFailConfig
       and tableName = "''test-table''" and items = "[Some ()]" and steps = "[busy, complete]"
       and createAV = "\<lambda>v :: unit. ()" and queries = "[]" and UnmarshalMap = unmarshalOk
       and refObjs = "[]" and gsteps = "[completeGet]" and its = "[]"]
  show ?thesis
    using c d g by (simp add: busy_def complete_def completeGet_def)
qed

lemma batchWriteLoop_busy:
  "(\<forall>st \<in> set steps. \<exists>res. reply st = Inr res \<and> UnprocessedItems res \<noteq> []) \<Longrightarrow>
   batchWriteLoop conv retries input steps =
     \<lparr>outcome = Pending, requests = replicate (Suc (length steps)) input, slept = []\<rparr>"
proof (induction steps)
  case Nil
  then show ?case by simp
next
  case (Cons st rest)
  then obtain res where "reply st = Inr res" "UnprocessedItems res \<noteq> []" by auto
  with Cons show ?case by (simp add: batchWriteLoop_reply del: batchWriteLoop.simps)
qed

text \<open>
  Claim C1. A batch operation should either complete or fail with an explicit error, and
  the retryable arms of the loop show how: back off, up to the cap, and issue the
  unprocessed remainder again. The arm for a reply that succeeds with a non-empty
  unprocessed set does neither: it leaves the request as it was and does not call the
  backoff, so nothing bounds the loop. For a create of one item against a backend that
  keeps leaving the item unprocessed, after any number \<open>n\<close> of replies the operation
  has issued the same whole request \<open>n + 1\<close> times, has slept nothing, and has
  returned neither success nor an error.
\<close>

theorem BatchWriteCreate_unprocessed_never_returns:
  "\<forall>n. BatchWriteCreate conv_amd64 marshalOk testTables DefaultFailConfig ''test-table'' [Some ()]
          (replicate n busy)
        = \<lparr>outcome = Pending, requests = replicate (Suc n) oneItemInput, slept = []\<rparr>"
proof
  fix n
  have "\<forall>st \<in> set (replicate n busy). \<exists>res. reply st = Inr res \<and> UnprocessedItems res \<noteq> []"
    by (simp add: busy_def)
  from batchWriteLoop_busy [OF this, of conv_amd64 "NewRetries DefaultFailConfig" oneItemInput]
  show "BatchWriteCreate conv_amd64 marshalOk testTables DefaultFailConfig ''test-table'' [Some ()]
          (replicate n busy)
        = \<lparr>outcome = Pending, requests = replicate (Suc n) oneItemInput, slept = []\<rparr>"
    by (simp add: BatchWriteCreate_def testTables_def marshalOk_def testTable_def oneItemInput_def)
qed

text \<open>
  Claim C2. A throttled request should go through the backoff and be issued again with
  the last unprocessed set. In the code \<^verbatim>\<open>batchWriteUtil\<close> and \<^verbatim>\<open>batchGetUtil\<close> return
  a nil result with every error, and the retryable arms read the unprocessed set of that
  result first: when the first reply is a throttling exception
  (\<^verbatim>\<open>ProvisionedThroughputExceededException\<close> or \<^verbatim>\<open>RequestLimitExceeded\<close>), each of the
  three operations panics on the nil pointer, after one request, before any backoff or
  sleep, whatever replies would follow.
\<close>

theorem batch_throttled_panics:
  "BatchWriteCreate conv_amd64 marshalOk testTables DefaultFailConfig ''test-table'' [Some ()]
     (failing ProvisionedThroughputExceededException # rest)
   = \<lparr>outcome = Finished Panicked, requests = [oneItemInput], slept = []\<rparr> \<and>
   BatchWriteDelete conv_amd64 (\<lambda>v :: unit. ()) testTables DefaultFailConfig ''test-table'' []
     (failing RequestLimitExceeded # rest)
   = \<lparr>outcome = Finished Panicked, requests = [\<lparr>RequestItems = [(''test-table'', [])]\<rparr>],
      slept = []\<rparr> \<and>
   BatchGet conv_amd64 (\<lambda>v :: unit. ()) unmarshalOk testTables DefaultFailConfig ''test-table'' [] []
     (failing ProvisionedThroughputExceededException # grest)
   = \<lparr>outcome = Finished Panicked,
      requests = [\<lparr>GetRequestItems = [(''test-table'', \<lparr>Keys = []\<rparr>)]\<rparr>], slept = []\<rparr>"
  by (simp add: BatchWriteCreate_def BatchWriteDelete_def BatchGet_def testTables_def marshalOk_def
      testTable_def oneItemInput_def failing_def batchWriteUtil_def batchGetUtil_def errorSwitch_def
      retryArm_def handleErr_def deleteRequests_def List.map_filter_simps)

text \<open>
  Claim C7, as amended. A write batch (create or delete) of more than 25 items and a
  multi-get of more than 100 queries fail with \<open>CollectionSizeExceededError\<close> without any
  backend call; a multi-get of at most 100 queries whose number differs from the number
  of reference targets fails with \<open>ReferenceObjectsCountError\<close> without any backend call.
\<close>

theorem batch_validation:
  "(25 < length items \<longrightarrow>
      BatchWriteCreate conv MarshalMap tables fc tableName items steps
        = \<lparr>outcome = Finished (Returned (Some (CollectionSizeExceededError (int (length items))))),
           requests = [], slept = []\<rparr>) \<and>
   (25 < length queries \<longrightarrow>
      BatchWriteDelete conv createAV tables fc tableName queries steps
        = \<lparr>outcome = Finished (Returned (Some (CollectionSizeExceededError (int (length queries))))),
           requests = [], slept = []\<rparr>) \<and>
   (100 < length keys \<longrightarrow>
      BatchGet conv createAV UnmarshalMap tables fc tableName keys refObjs gsteps
        = \<lparr>outcome = Finished (Returned ([], Some (CollectionSizeExceededError (int (length keys))))),
           requests = [], slept = []\<rparr>) \<and>
   (length keys' \<le> 100 \<and> length keys' \<noteq> length refObjs' \<longrightarrow>
      BatchGet conv createAV UnmarshalMap tables fc tableName keys' refObjs' gsteps
        = \<lparr>outcome = Finished (Returned ([], Some ReferenceObjectsCountError)),
           requests = [], slept = []\<rparr>)"
  by (simp add: BatchWriteCreate_def BatchWriteDelete_def BatchGet_def finished_def)

text \<open>
  The theorem at batches of 26 and 101 entries and at a multi-get of 2 queries with 3
  reference targets.
\<close>

theorem batch_validation_witness:
  "BatchWriteCreate conv_amd64 marshalOk testTables DefaultFailConfig ''test-table''
       (replicate 26 None) [complete]
     = \<lparr>outcome = Finished (Returned (Some (CollectionSizeExceededError 26))), requests = [], slept = []\<rparr> \<and>
   BatchWriteDelete conv_amd64 (\<lambda>v :: unit. ()) testTables DefaultFailConfig ''test-table''
       (replicate 26 None) [complete]
     = \<lparr>outcome = Finished (Returned (Some (CollectionSizeExceededError 26))), requests = [], slept = []\<rparr> \<and>
   BatchGet conv_amd64 (\<lambda>v :: unit. ()) unmarshalOk testTables DefaultFailConfig ''test-table''
       (replicate 101 None) (replicate 101 ()) [completeGet]
     = \<lparr>outcome = Finished (Returned ([], Some (CollectionSizeExceededError 101))), requests = [], slept = []\<rparr> \<and>
   BatchGet conv_amd64 (\<lambda>v :: unit. ()) unmarshalOk testTables DefaultFailConfig ''test-table''
       (replicate 2 None) (replicate 3 ()) [completeGet]
     = \<lparr>outcome = Finished (Returned ([], Some ReferenceObjectsCountError)), requests = [], slept = []\<rparr>"
  using batch_validation
    [where items = "replicate 26 (None :: unit option)" and conv = conv_amd64 and MarshalMap = marshalOk
       and tables = testTables and fc = DefaultFailConfig and tableName = "''test-table''"
       and steps = "[complete]" and queries = "replicate 26 (None :: unit Query option)"
       and createAV = "\<lambda>v :: unit. ()" and keys = "replicate 101 (None :: unit Query option)"
       and UnmarshalMap = unmarshalOk and refObjs = "replicate 101 ()" and gsteps = "[completeGet]"
       and keys' = "replicate 2 (None :: unit Query option)" and refObjs' = "replicate 3 ()"]
  by simp

text \<open>
  Claim C7 as stated fails for a multi-get that is both oversized and mismatched: the
  size is checked first, so 101 queries with no reference target fail with
  \<open>CollectionSizeExceededError\<close>, not with \<open>ReferenceObjectsCountError\<close>.
\<close>

theorem BatchGet_oversized_mismatch_counterexample:
  "BatchGet conv_amd64 (\<lambda>v :: unit. ()) unmarshalOk testTables DefaultFailConfig ''test-table''
       (replicate 101 None) [] [completeGet]
     = \<lparr>outcome = Finished (Returned ([], Some (CollectionSizeExceededError 101))), requests = [], slept = []\<rparr>
   \<and> length (replicate 101 (None :: unit Query option)) \<noteq> length ([] :: unit list)"
  by (simp add: BatchGet_def finished_def)

text \<open>
  Claim C9. A batch operation on an empty item set should be a no-op without any backend
  call, and the package's test of \<^verbatim>\<open>BatchWriteCreate\<close> with nil items expects no call
  either. No operation guards the empty input, and each loop calls the backend before it
  tests anything: on the registered test table, a create, a delete and a get of nothing
  each issue one request that names the table with an empty list of entries, here
  answered by a backend that completes it.
\<close>

theorem batch_empty_issues_one_request:
  "BatchWriteCreate conv_amd64 marshalOk testTables DefaultFailConfig ''test-table'' [] [complete]
     = \<lparr>outcome = Finished (Returned None), requests = [\<lparr>RequestItems = [(''test-table'', [])]\<rparr>],
        slept = []\<rparr> \<and>
   BatchWriteDelete conv_amd64 (\<lambda>v :: unit. ()) testTables DefaultFailConfig ''test-table'' [] [complete]
     = \<lparr>outcome = Finished (Returned None), requests = [\<lparr>RequestItems = [(''test-table'', [])]\<rparr>],
        slept = []\<rparr> \<and>
   BatchGet conv_amd64 (\<lambda>v :: unit. ()) unmarshalOk testTables DefaultFailConfig ''test-table'' [] []
       [completeGet]
     = \<lparr>outcome = Finished (Returned ([], None)),
        requests = [\<lparr>GetRequestItems = [(''test-table'', \<lparr>Keys = []\<rparr>)]\<rparr>], slept = []\<rparr>"
  by (simp add: BatchWriteCreate_def BatchWriteDelete_def BatchGet_def testTables_def testTable_def
      complete_def completeGet_def deleteRequests_def List.map_filter_simps batchWriteUtil_def
      batchGetUtil_def errorSwitch_def tableResponses_def)

end
